theory Spec2Isabelle
  imports Main "HOL-Library.Char_ord" "HOL-Library.List_Lexorder"
    "HOL-Library.Product_Lexorder"
begin

section \<open>Double-precision values\<close>

text \<open>
  The library stores every metric value in a C++ \<open>double\<close>, the IEEE 754 binary64
  format. Every finite double is a whole multiple of \<open>2^(-1074)\<close>, the smallest positive
  double: \<open>Fin s n\<close> is the double of sign \<open>s\<close> (true for negative) and magnitude
  \<open>n \<times> 2^(-1074)\<close>. The two zeros \<open>Fin False 0\<close> and \<open>Fin True 0\<close> are different values that
  compare equal. The not-a-number values are one value \<open>NaN\<close>.
\<close>

datatype double = NaN | MInf | Fin bool nat | PInf

text \<open>
  The smallest positive double is \<open>2^(-1074)\<close>; the finite doubles lie below \<open>2^1024\<close>,
  which is \<open>2^2098\<close> units.
\<close>

definition emin :: nat where
  "emin = 1074"

definition emax :: nat where
  "emax = 2098"

text \<open>The number of binary digits of a natural number.\<close>

fun bit_length :: "nat \<Rightarrow> nat" where
  "bit_length n = (if n = 0 then 0 else Suc (bit_length (n div 2)))"

declare bit_length.simps [simp del]

text \<open>
  A magnitude is that of a double when it has at most 53 significant binary digits and
  lies below the overflow bound.
\<close>

definition representable :: "nat \<Rightarrow> bool" where
  "representable n = (n < 2 ^ emax \<and> n mod 2 ^ (bit_length n - 53) = 0)"

text \<open>
  Rounding of an exact magnitude to 53 significant digits, to the nearest and on a tie to
  the even neighbour (the default rounding mode); a result of \<open>2^1024\<close> or more
  overflows to the infinity of its sign.
\<close>

definition round_nat :: "nat \<Rightarrow> nat" where
  "round_nat n =
     (let s = bit_length n - 53; q = n div 2 ^ s; r = n mod 2 ^ s in
      if 2 ^ s < 2 * r \<or> (2 * r = 2 ^ s \<and> odd q) then (q + 1) * 2 ^ s else q * 2 ^ s)"

definition round_double :: "bool \<Rightarrow> nat \<Rightarrow> double" where
  "round_double s n =
     (let n' = round_nat n in
      if 2 ^ emax \<le> n' then (if s then MInf else PInf) else Fin s n')"

text \<open>The value of a finite double in units of \<open>2^(-1074)\<close>.\<close>

definition sval :: "bool \<Rightarrow> nat \<Rightarrow> int" where
  "sval s n = (if s then - int n else int n)"

fun scaled :: "double \<Rightarrow> int option" where
  "scaled (Fin s n) = Some (sval s n)"
| "scaled _ = None"

text \<open>
  The double \<open>m \<times> 2^e\<close> for an exponent \<open>e\<close> of at least \<open>-1074\<close>, and the conversion of a
  whole number to double; both are exact for \<open>m\<close> below \<open>2^53\<close>.
\<close>

definition dbl :: "bool \<Rightarrow> nat \<Rightarrow> int \<Rightarrow> double" where
  "dbl s m e = Fin s (m * 2 ^ nat (e + int emin))"

definition double_of_nat :: "nat \<Rightarrow> double" where
  "double_of_nat k = round_double False (k * 2 ^ emin)"

text \<open>
  Comparisons follow IEEE 754: every comparison with \<open>NaN\<close> is false, and the zeros are
  equal.
\<close>

fun dlt :: "double \<Rightarrow> double \<Rightarrow> bool" where
  "dlt NaN _ = False"
| "dlt _ NaN = False"
| "dlt MInf MInf = False"
| "dlt MInf _ = True"
| "dlt (Fin s n) (Fin s' n') = (sval s n < sval s' n')"
| "dlt (Fin s n) PInf = True"
| "dlt (Fin s n) MInf = False"
| "dlt PInf _ = False"

fun dle :: "double \<Rightarrow> double \<Rightarrow> bool" where
  "dle NaN _ = False"
| "dle _ NaN = False"
| "dle MInf _ = True"
| "dle (Fin s n) (Fin s' n') = (sval s n \<le> sval s' n')"
| "dle (Fin s n) PInf = True"
| "dle (Fin s n) MInf = False"
| "dle PInf PInf = True"
| "dle PInf _ = False"

text \<open>\<open>a > b\<close> and \<open>a >= b\<close> of C++ are the two comparisons with the operands swapped.\<close>

definition dgt :: "double \<Rightarrow> double \<Rightarrow> bool" where
  "dgt a b = dlt b a"

definition dge :: "double \<Rightarrow> double \<Rightarrow> bool" where
  "dge a b = dle b a"

fun dneg :: "double \<Rightarrow> double" where
  "dneg NaN = NaN"
| "dneg MInf = PInf"
| "dneg (Fin s n) = Fin (\<not> s) n"
| "dneg PInf = MInf"

text \<open>
  Addition: the exact sum of two finite doubles, rounded. An exact sum of zero is the
  positive zero unless both operands are negative zeros. The sum of the two opposite
  infinities is \<open>NaN\<close>. Subtraction is the addition of the negated operand.
\<close>

fun dadd :: "double \<Rightarrow> double \<Rightarrow> double" where
  "dadd NaN _ = NaN"
| "dadd _ NaN = NaN"
| "dadd (Fin s n) (Fin s' n') =
     (let z = sval s n + sval s' n' in
      if z = 0 then Fin (s \<and> s') 0 else round_double (z < 0) (nat \<bar>z\<bar>))"
| "dadd (Fin s n) PInf = PInf"
| "dadd (Fin s n) MInf = MInf"
| "dadd PInf MInf = NaN"
| "dadd PInf _ = PInf"
| "dadd MInf PInf = NaN"
| "dadd MInf _ = MInf"

definition dsub :: "double \<Rightarrow> double \<Rightarrow> double" where
  "dsub a b = dadd a (dneg b)"

section \<open>The accumulator \<open>atomic_double\<close>, one thread at a time\<close>

text \<open>
  \<open>atomic_double\<close> wraps one double. \<open>change\<close> retries \<open>compare_exchange_weak\<close> until
  the exchange stores \<open>target_value\<close>; run by a single thread its effect is the store.
  \<open>operator+=\<close> is \<open>change(load() + value)\<close> and \<open>operator-=\<close> is
  \<open>change(load() - value)\<close>.
\<close>

type_synonym atomic_double = double

definition load :: "atomic_double \<Rightarrow> double" where
  "load a = a"

definition change :: "double \<Rightarrow> atomic_double \<Rightarrow> atomic_double" where
  "change target_value a = target_value"

definition atomic_add :: "double \<Rightarrow> atomic_double \<Rightarrow> atomic_double" where
  "atomic_add v a = change (dadd (load a) v) a"

definition atomic_sub :: "double \<Rightarrow> atomic_double \<Rightarrow> atomic_double" where
  "atomic_sub v a = change (dsub (load a) v) a"

section \<open>The accumulator under concurrent callers\<close>

text \<open>
  Every operation of \<open>std::atomic<double>\<close> used by the class runs with the default
  sequentially consistent memory order, so a concurrent execution is an interleaving of
  its atomic steps. A call of \<open>operator+=\<close> or \<open>operator-=\<close> takes these steps:
  \<^enum> \<open>this->load() + value\<close>: one atomic load, after which the target is fixed;
  \<^enum> \<open>double current = *this\<close> at the head of the loop of \<open>change\<close>: one atomic load;
  \<^enum> \<open>compare_exchange_weak(current, target_value)\<close>, repeated until it succeeds: it
    stores the target when the accumulator holds \<open>current\<close>, and otherwise (or when it
    fails spuriously) reloads \<open>current\<close>.
\<close>

datatype acc_op = Add double | Sub double

datatype thread =
    Start acc_op
  | Computed double
  | Looping double double
  | Done

fun thread_step :: "bool \<Rightarrow> atomic_double \<Rightarrow> thread \<Rightarrow> atomic_double \<times> thread" where
  "thread_step spurious a (Start (Add v)) = (a, Computed (dadd (load a) v))"
| "thread_step spurious a (Start (Sub v)) = (a, Computed (dsub (load a) v))"
| "thread_step spurious a (Computed target_value) = (a, Looping (load a) target_value)"
| "thread_step spurious a (Looping current target_value) =
     (if load a = current \<and> \<not> spurious then (target_value, Done)
      else (a, Looping (load a) target_value))"
| "thread_step spurious a Done = (a, Done)"

text \<open>
  A schedule names, step by step, the thread that moves and whether its exchange fails
  spuriously at that step.
\<close>

fun sched_step :: "nat \<times> bool \<Rightarrow> atomic_double \<times> thread list \<Rightarrow> atomic_double \<times> thread list" where
  "sched_step (i, spurious) (a, ts) =
     (if i < length ts
      then (case thread_step spurious a (ts ! i) of (a', t') \<Rightarrow> (a', ts[i := t']))
      else (a, ts))"

definition run :: "(nat \<times> bool) list \<Rightarrow> atomic_double \<times> thread list \<Rightarrow> atomic_double \<times> thread list" where
  "run schedule conf = fold sched_step schedule conf"

text \<open>What the claim expects of a finished execution: the initial value with every delta applied.\<close>

fun apply_op :: "acc_op \<Rightarrow> double \<Rightarrow> double" where
  "apply_op (Add v) a = dadd a v"
| "apply_op (Sub v) a = dsub a v"

section \<open>Counter and Gauge\<close>

record Counter =
  counter_value :: atomic_double

definition Counter_new :: Counter where
  "Counter_new = \<lparr>counter_value = double_of_nat 0\<rparr>"

definition Counter_get :: "Counter \<Rightarrow> double" where
  "Counter_get c = load (counter_value c)"

definition Counter_inc :: "Counter \<Rightarrow> Counter" where
  "Counter_inc c = c\<lparr>counter_value := atomic_add (double_of_nat 1) (counter_value c)\<rparr>"

definition Counter_add :: "double \<Rightarrow> Counter \<Rightarrow> Counter" where
  "Counter_add v c =
     (if dgt v (double_of_nat 0) then c\<lparr>counter_value := atomic_add v (counter_value c)\<rparr> else c)"

record Gauge =
  gauge_value :: atomic_double

definition Gauge_new :: "double \<Rightarrow> Gauge" where
  "Gauge_new initial_value = \<lparr>gauge_value = initial_value\<rparr>"

definition Gauge_get :: "Gauge \<Rightarrow> double" where
  "Gauge_get g = load (gauge_value g)"

definition Gauge_set :: "double \<Rightarrow> Gauge \<Rightarrow> Gauge" where
  "Gauge_set v g = g\<lparr>gauge_value := v\<rparr>"

definition Gauge_inc :: "Gauge \<Rightarrow> Gauge" where
  "Gauge_inc g = g\<lparr>gauge_value := atomic_add (double_of_nat 1) (gauge_value g)\<rparr>"

definition Gauge_dec :: "Gauge \<Rightarrow> Gauge" where
  "Gauge_dec g = g\<lparr>gauge_value := atomic_sub (double_of_nat 1) (gauge_value g)\<rparr>"

definition Gauge_add :: "double \<Rightarrow> Gauge \<Rightarrow> Gauge" where
  "Gauge_add v g =
     (if dgt v (double_of_nat 0) then g\<lparr>gauge_value := atomic_add v (gauge_value g)\<rparr> else g)"

definition Gauge_sub :: "double \<Rightarrow> Gauge \<Rightarrow> Gauge" where
  "Gauge_sub v g =
     (if dgt v (double_of_nat 0) then g\<lparr>gauge_value := atomic_sub v (gauge_value g)\<rparr> else g)"

section \<open>Metric types and name formats\<close>

datatype MetricType = Counter | Gauge | Summary | Histogram

fun metric_type_to_string :: "MetricType \<Rightarrow> string" where
  "metric_type_to_string Counter = ''counter''"
| "metric_type_to_string Gauge = ''gauge''"
| "metric_type_to_string Summary = ''summary''"
| "metric_type_to_string Histogram = ''histogram''"

text \<open>Every failure of the library is a \<open>std::invalid_argument\<close> carrying a message.\<close>

datatype error = invalid_argument string

text \<open>
  \<open>std::regex_match\<close> accepts a name when the whole name matches. The two expressions are
  \<open>[a-zA-Z_:][a-zA-Z0-9_:]*\<close> for metric names and \<open>[a-zA-Z_][a-zA-Z0-9_]*\<close> for label
  names; a range of a bracket expression is a range of character codes.
\<close>

definition is_alpha :: "char \<Rightarrow> bool" where
  "is_alpha c = ((CHR ''a'' \<le> c \<and> c \<le> CHR ''z'') \<or> (CHR ''A'' \<le> c \<and> c \<le> CHR ''Z''))"

definition is_digit :: "char \<Rightarrow> bool" where
  "is_digit c = (CHR ''0'' \<le> c \<and> c \<le> CHR ''9'')"

fun name_format_regex :: "string \<Rightarrow> bool" where
  "name_format_regex [] = False"
| "name_format_regex (c # cs) =
     ((is_alpha c \<or> c = CHR ''_'' \<or> c = CHR '':'')
      \<and> list_all (\<lambda>d. is_alpha d \<or> is_digit d \<or> d = CHR ''_'' \<or> d = CHR '':'') cs)"

definition check_name_format :: "string \<Rightarrow> error + unit" where
  "check_name_format name =
     (if \<not> name_format_regex name then Inl (invalid_argument ''Metric name does not follow format'')
      else Inr ())"

fun label_name_format_regex :: "string \<Rightarrow> bool" where
  "label_name_format_regex [] = False"
| "label_name_format_regex (c # cs) =
     ((is_alpha c \<or> c = CHR ''_'')
      \<and> list_all (\<lambda>d. is_alpha d \<or> is_digit d \<or> d = CHR ''_'') cs)"

definition check_label_name_format :: "string \<Rightarrow> error + unit" where
  "check_label_name_format label_name =
     (if \<not> label_name_format_regex label_name
      then Inl (invalid_argument ''Label name does not follow format'')
      else Inr ())"

text \<open>\<open>std::for_each\<close> over the label names stops at the first name that throws.\<close>

fun for_each_check :: "(string \<Rightarrow> error + unit) \<Rightarrow> string list \<Rightarrow> error + unit" where
  "for_each_check check [] = Inr ()"
| "for_each_check check (n # ns) =
     (case check n of Inl e \<Rightarrow> Inl e | Inr _ \<Rightarrow> for_each_check check ns)"

section \<open>Labels\<close>

text \<open>
  A \<open>Label\<close> is a pair of strings; \<open>operator<\<close> compares \<open>std::tie(name, value)\<close>, that is
  the names first and the values on equal names, each as strings of unsigned characters.
\<close>

datatype Label = Label (label_name: string) (label_value: string)

instantiation Label :: linorder
begin

definition less_eq_Label :: "Label \<Rightarrow> Label \<Rightarrow> bool" where
  "less_eq_Label l l' \<longleftrightarrow> (label_name l, label_value l) \<le> (label_name l', label_value l')"

definition less_Label :: "Label \<Rightarrow> Label \<Rightarrow> bool" where
  "less_Label l l' \<longleftrightarrow> (label_name l, label_value l) < (label_name l', label_value l')"

instance
proof
  fix x y z :: Label
  show "(x < y) = (x \<le> y \<and> \<not> y \<le> x)"
    unfolding less_Label_def less_eq_Label_def by (rule less_le_not_le)
  show "x \<le> x"
    unfolding less_eq_Label_def by (rule order_refl)
  show "x \<le> y \<Longrightarrow> y \<le> z \<Longrightarrow> x \<le> z"
    unfolding less_eq_Label_def by (rule order_trans)
  show "x \<le> y \<Longrightarrow> y \<le> x \<Longrightarrow> x = y"
    unfolding less_eq_Label_def by (cases x, cases y) (auto simp add: prod_le_def)
  show "x \<le> y \<or> y \<le> x"
    unfolding less_eq_Label_def by (rule linear)
qed

end

section \<open>Ordered containers\<close>

text \<open>
  A \<open>std::set\<close> is modelled by the list of its elements in iteration order, strictly
  ascending; a \<open>std::map\<close> by the list of its entries in iteration order, strictly ascending
  in the keys. The container operations use the order only through \<open><\<close>, as \<open>std::less\<close>
  does: two keys are equivalent when neither is less than the other. \<open>std::set<Label>\<close>
  values are themselves compared lexicographically, which is the order of lists.
\<close>

fun set_insert :: "'a::linorder \<Rightarrow> 'a list \<Rightarrow> 'a list" where
  "set_insert x [] = [x]"
| "set_insert x (y # ys) =
     (if x < y then x # y # ys
      else if y < x then y # set_insert x ys
      else y # ys)"

definition set_of_list :: "'a::linorder list \<Rightarrow> 'a list" where
  "set_of_list xs = fold set_insert xs []"

fun set_find :: "'a::linorder \<Rightarrow> 'a list \<Rightarrow> bool" where
  "set_find x [] = False"
| "set_find x (y # ys) = (if \<not> x < y \<and> \<not> y < x then True else set_find x ys)"

fun map_find :: "'k::linorder \<Rightarrow> ('k \<times> 'v) list \<Rightarrow> 'v option" where
  "map_find k [] = None"
| "map_find k ((k', v) # m) = (if \<not> k < k' \<and> \<not> k' < k then Some v else map_find k m)"

text \<open>\<open>insert\<close> of a \<open>std::map\<close> leaves the map as it is when an equivalent key is present.\<close>

fun map_insert :: "'k::linorder \<times> 'v \<Rightarrow> ('k \<times> 'v) list \<Rightarrow> ('k \<times> 'v) list" where
  "map_insert (k, v) [] = [(k, v)]"
| "map_insert (k, v) ((k', v') # m) =
     (if k < k' then (k, v) # (k', v') # m
      else if k' < k then (k', v') # map_insert (k, v) m
      else (k', v') # m)"

text \<open>\<open>erase\<close> by key returns the number of entries it removed.\<close>

definition map_erase :: "'k::linorder \<Rightarrow> ('k \<times> 'v) list \<Rightarrow> nat \<times> ('k \<times> 'v) list" where
  "map_erase k m =
     (let m' = filter (\<lambda>(k', v). k < k' \<or> k' < k) m in (length m - length m', m'))"

section \<open>Shared objects\<close>

text \<open>
  A \<open>std::shared_ptr\<close> is an address. The concrete metrics that a family creates with
  \<open>std::make_shared\<close> live in a heap of cells with an allocation counter; every address
  handed out so far is below the counter.
\<close>

record 't heap =
  cells :: "nat \<Rightarrow> 't"
  next_free :: nat

definition make_shared :: "'t \<Rightarrow> 't heap \<Rightarrow> nat \<times> 't heap" where
  "make_shared v h =
     (next_free h, h\<lparr>cells := (cells h)(next_free h := v), next_free := Suc (next_free h)\<rparr>)"

section \<open>Metric identity\<close>

record Metric =
  m_name :: string
  m_description :: string
  m_type :: MetricType

definition Metric_new :: "string \<Rightarrow> string \<Rightarrow> MetricType \<Rightarrow> error + Metric" where
  "Metric_new name description type =
     (case check_name_format name of
        Inl e \<Rightarrow> Inl e
      | Inr _ \<Rightarrow> Inr \<lparr>m_name = name, m_description = description, m_type = type\<rparr>)"

definition get_name :: "'a Metric_scheme \<Rightarrow> string" where
  "get_name m = m_name m"

definition get_description :: "'a Metric_scheme \<Rightarrow> string" where
  "get_description m = m_description m"

definition get_type :: "'a Metric_scheme \<Rightarrow> MetricType" where
  "get_type m = m_type m"

section \<open>Metric families\<close>

record MetricFamily = Metric +
  labels_names :: "string list"
  metrics :: "(Label list \<times> nat) list"

definition MetricFamily_new ::
  "string \<Rightarrow> string \<Rightarrow> MetricType \<Rightarrow> string list \<Rightarrow> error + MetricFamily" where
  "MetricFamily_new name description type names =
     (case Metric_new name description type of
        Inl e \<Rightarrow> Inl e
      | Inr m \<Rightarrow>
          (case for_each_check check_label_name_format names of
             Inl e \<Rightarrow> Inl e
           | Inr _ \<Rightarrow> Inr (Metric.extend m \<lparr>labels_names = names, metrics = []\<rparr>)))"

text \<open>
  \<open>MetricFamily<T>::labels(labels, args...)\<close>. The first parameter is the metric
  \<open>T(args...)\<close> that \<open>std::make_shared\<close> would build; the constructors of the three metric
  kinds neither fail nor have effects, so it is only used in the branch that allocates.
  The result is the exception or the returned pointer, with the family and the heap as
  the call leaves them.
\<close>

definition MetricFamily_labels ::
  "'t \<Rightarrow> Label list \<Rightarrow> 'a MetricFamily_scheme \<Rightarrow> 't heap
     \<Rightarrow> (error + nat) \<times> 'a MetricFamily_scheme \<times> 't heap" where
  "MetricFamily_labels new_t labels f h =
     (if length labels \<noteq> length (labels_names f)
      then (Inl (invalid_argument ''Incorrect number of label given''), f, h)
      else if list_ex (\<lambda>l. \<not> set_find (label_name l) (labels_names f)) labels
      then (Inl (invalid_argument ''Incorrect label combinaison given''), f, h)
      else (case map_find labels (metrics f) of
              Some res \<Rightarrow> (Inr res, f, h)
            | None \<Rightarrow>
                (case make_shared new_t h of
                   (new_metric, h') \<Rightarrow>
                     (Inr new_metric,
                      f\<lparr>metrics := map_insert (labels, new_metric) (metrics f)\<rparr>, h'))))"

section \<open>Histogram\<close>

text \<open>
  The default bounds are the doubles nearest to 0.005, 0.01, 0.025, 0.05, 0.1, 0.25, 0.5,
  1, 2.5, 5 and 10, each written as a 53-digit integer times a power of two.
\<close>

definition default_buckets :: "double list" where
  "default_buckets =
     [dbl False 5764607523034235 (-60), dbl False 5764607523034235 (-59),
      dbl False 3602879701896397 (-57), dbl False 3602879701896397 (-56),
      dbl False 3602879701896397 (-55), dbl False 1 (-2), dbl False 1 (-1), dbl False 1 0,
      dbl False 5 (-1), dbl False 5 0, dbl False 10 0]"

text \<open>
  The buckets are a \<open>std::map<double, atomic_double>\<close>, ordered by \<open><\<close> of doubles. A
  bound that is equivalent to one already present is not inserted again.
\<close>

fun bucket_insert ::
  "double \<times> atomic_double \<Rightarrow> (double \<times> atomic_double) list \<Rightarrow> (double \<times> atomic_double) list" where
  "bucket_insert (k, v) [] = [(k, v)]"
| "bucket_insert (k, v) ((k', v') # m) =
     (if dlt k k' then (k, v) # (k', v') # m
      else if dlt k' k then (k', v') # bucket_insert (k, v) m
      else (k', v') # m)"

record Histogram =
  h_buckets :: "(double \<times> atomic_double) list"
  h_sum :: atomic_double

definition Histogram_new :: "double list \<Rightarrow> Histogram" where
  "Histogram_new bs =
     \<lparr>h_buckets = fold (\<lambda>bucket m. bucket_insert (bucket, double_of_nat 0) m) bs
                      (bucket_insert (PInf, double_of_nat 0) []),
      h_sum = double_of_nat 0\<rparr>"

fun observe_buckets :: "double \<Rightarrow> (double \<times> atomic_double) list \<Rightarrow> (double \<times> atomic_double) list" where
  "observe_buckets v [] = []"
| "observe_buckets v ((bound, count) # m) =
     (if dle v bound then (bound, atomic_add (double_of_nat 1) count) # observe_buckets v m
      else (bound, count) # observe_buckets v m)"

definition observe :: "double \<Rightarrow> Histogram \<Rightarrow> Histogram" where
  "observe v h =
     h\<lparr>h_sum := atomic_add v (h_sum h), h_buckets := observe_buckets v (h_buckets h)\<rparr>"

definition buckets :: "Histogram \<Rightarrow> (double \<times> atomic_double) list" where
  "buckets h = h_buckets h"

text \<open>
  Two bucket counts in step: both are whole numbers of at most \<open>2^53\<close>, the first at most
  the second.
\<close>

definition count_le :: "double \<Rightarrow> double \<Rightarrow> bool" where
  "count_le c c' =
     (\<exists>a b. a \<le> b \<and> b \<le> 2 ^ 53 \<and> c = double_of_nat a \<and> c' = double_of_nat b)"

section \<open>The family classes\<close>

text \<open>
  \<open>CounterFamily\<close> and \<open>GaugeFamily\<close> add nothing to \<open>MetricFamily\<close>;
  \<open>HistogramFamily\<close> also keeps the bucket bounds of the histograms it creates.
\<close>

definition CounterFamily_new :: "string \<Rightarrow> string \<Rightarrow> string list \<Rightarrow> error + MetricFamily" where
  "CounterFamily_new name description names = MetricFamily_new name description Counter names"

definition CounterFamily_labels ::
  "Label list \<Rightarrow> MetricFamily \<Rightarrow> Counter heap \<Rightarrow> (error + nat) \<times> MetricFamily \<times> Counter heap" where
  "CounterFamily_labels labels f h = MetricFamily_labels Counter_new labels f h"

definition GaugeFamily_new :: "string \<Rightarrow> string \<Rightarrow> string list \<Rightarrow> error + MetricFamily" where
  "GaugeFamily_new name description names = MetricFamily_new name description Gauge names"

definition GaugeFamily_labels ::
  "Label list \<Rightarrow> double \<Rightarrow> MetricFamily \<Rightarrow> Gauge heap
     \<Rightarrow> (error + nat) \<times> MetricFamily \<times> Gauge heap" where
  "GaugeFamily_labels labels default_value f h =
     MetricFamily_labels (Gauge_new default_value) labels f h"

record HistogramFamily = MetricFamily +
  hf_buckets :: "double list"

definition HistogramFamily_new ::
  "string \<Rightarrow> string \<Rightarrow> string list \<Rightarrow> double list \<Rightarrow> error + HistogramFamily" where
  "HistogramFamily_new name description names bs =
     (case MetricFamily_new name description Gauge names of
        Inl e \<Rightarrow> Inl e
      | Inr f \<Rightarrow> Inr (MetricFamily.extend f \<lparr>hf_buckets = bs\<rparr>))"

definition HistogramFamily_labels ::
  "Label list \<Rightarrow> HistogramFamily \<Rightarrow> Histogram heap
     \<Rightarrow> (error + nat) \<times> HistogramFamily \<times> Histogram heap" where
  "HistogramFamily_labels labels f h =
     MetricFamily_labels (Histogram_new (hf_buckets f)) labels f h"

section \<open>Metric objects\<close>

text \<open>
  The classes derived from \<open>Metric\<close>. A registry and a snapshot hold pointers to such
  objects; \<open>store\<close> gives the object behind an address, and no object where the owner is
  gone (a \<open>std::weak_ptr\<close> to it has expired).
\<close>

datatype MetricObj =
    CounterMetric Metric Counter
  | GaugeMetric Metric Gauge
  | HistogramMetric Metric Histogram
  | CounterFamily MetricFamily
  | GaugeFamily MetricFamily
  | HistogramFamily HistogramFamily

type_synonym store = "nat \<Rightarrow> MetricObj option"

definition CounterMetric_new :: "string \<Rightarrow> string \<Rightarrow> error + MetricObj" where
  "CounterMetric_new name description =
     (case Metric_new name description Counter of
        Inl e \<Rightarrow> Inl e
      | Inr m \<Rightarrow> Inr (CounterMetric m Counter_new))"

definition GaugeMetric_new :: "string \<Rightarrow> string \<Rightarrow> double \<Rightarrow> error + MetricObj" where
  "GaugeMetric_new name description initial_value =
     (case Metric_new name description Gauge of
        Inl e \<Rightarrow> Inl e
      | Inr m \<Rightarrow> Inr (GaugeMetric m (Gauge_new initial_value)))"

definition HistogramMetric_new :: "string \<Rightarrow> string \<Rightarrow> double list \<Rightarrow> error + MetricObj" where
  "HistogramMetric_new name description bs =
     (case Metric_new name description Histogram of
        Inl e \<Rightarrow> Inl e
      | Inr m \<Rightarrow> Inr (HistogramMetric m (Histogram_new bs)))"

fun obj_get_name :: "MetricObj \<Rightarrow> string" where
  "obj_get_name (CounterMetric m c) = get_name m"
| "obj_get_name (GaugeMetric m g) = get_name m"
| "obj_get_name (HistogramMetric m h) = get_name m"
| "obj_get_name (CounterFamily f) = get_name f"
| "obj_get_name (GaugeFamily f) = get_name f"
| "obj_get_name (HistogramFamily f) = get_name f"

fun obj_get_description :: "MetricObj \<Rightarrow> string" where
  "obj_get_description (CounterMetric m c) = get_description m"
| "obj_get_description (GaugeMetric m g) = get_description m"
| "obj_get_description (HistogramMetric m h) = get_description m"
| "obj_get_description (CounterFamily f) = get_description f"
| "obj_get_description (GaugeFamily f) = get_description f"
| "obj_get_description (HistogramFamily f) = get_description f"

fun obj_get_type :: "MetricObj \<Rightarrow> MetricType" where
  "obj_get_type (CounterMetric m c) = get_type m"
| "obj_get_type (GaugeMetric m g) = get_type m"
| "obj_get_type (HistogramMetric m h) = get_type m"
| "obj_get_type (CounterFamily f) = get_type f"
| "obj_get_type (GaugeFamily f) = get_type f"
| "obj_get_type (HistogramFamily f) = get_type f"

section \<open>Registry\<close>

record Registry =
  register_metrics :: "(string \<times> nat) list"

definition Registry_new :: Registry where
  "Registry_new = \<lparr>register_metrics = []\<rparr>"

text \<open>
  \<open>register_metric\<close> reads the name through the pointer it is given; the result is
  \<open>None\<close> when the pointer has no object behind it, where the source dereferences a null
  pointer.
\<close>

definition register_metric :: "store \<Rightarrow> nat \<Rightarrow> Registry \<Rightarrow> (bool \<times> Registry) option" where
  "register_metric st metric r =
     (case st metric of
        None \<Rightarrow> None
      | Some obj \<Rightarrow>
          (let metric_name = obj_get_name obj in
           if map_find metric_name (register_metrics r) = None
           then Some (True, r\<lparr>register_metrics := map_insert (metric_name, metric) (register_metrics r)\<rparr>)
           else Some (False, r)))"

definition unregister_metric :: "string \<Rightarrow> Registry \<Rightarrow> bool \<times> Registry" where
  "unregister_metric metric_name r =
     (case map_erase metric_name (register_metrics r) of
        (n, m') \<Rightarrow> (n \<noteq> 0, r\<lparr>register_metrics := m'\<rparr>))"

text \<open>
  \<open>get_metric\<close> returns a null pointer (\<open>None\<close>) for a name that is not registered. It
  indexes the map only after \<open>find\<close> has found the name, so the map is never extended.
\<close>

definition get_metric :: "string \<Rightarrow> Registry \<Rightarrow> nat option" where
  "get_metric metric_name r =
     (if map_find metric_name (register_metrics r) \<noteq> None
      then map_find metric_name (register_metrics r)
      else None)"

definition Registry_size :: "Registry \<Rightarrow> nat" where
  "Registry_size r = length (register_metrics r)"

definition collect :: "Registry \<Rightarrow> (string \<times> nat) list \<Rightarrow> (string \<times> nat) list" where
  "collect r out = fold (\<lambda>p m. map_insert (fst p, snd p) m) (register_metrics r) out"

section \<open>Text serializer\<close>

text \<open>
  An output stream is the text written so far. \<open>std::endl\<close> writes a line feed. How the
  platform prints a double with \<open>operator<<\<close> and with \<open>std::to_string\<close> is outside the
  repository: the two conversions are the parameters \<open>fmt\<close> and \<open>to_string\<close>.
\<close>

definition endl :: string where
  "endl = [CHR 0x0A]"

definition dquote :: string where
  "dquote = [CHR 0x22]"

definition backslash :: string where
  "backslash = [CHR 0x5C]"

fun escape_double_quotes :: "string \<Rightarrow> string" where
  "escape_double_quotes [] = []"
| "escape_double_quotes (c # cs) =
     (if [c] = dquote then backslash @ dquote @ escape_double_quotes cs
      else c # escape_double_quotes cs)"

type_synonym MetricSerializer = "string \<Rightarrow> string \<Rightarrow> double \<Rightarrow> Label list \<Rightarrow> Label \<Rightarrow> string"

text \<open>The loop over the labels carries the stream and the separator \<open>comma\<close>.\<close>

fun labels_loop :: "Label list \<Rightarrow> string \<times> string \<Rightarrow> string \<times> string" where
  "labels_loop [] (stream, comma) = (stream, comma)"
| "labels_loop (label # ls) (stream, comma) =
     labels_loop ls
       (stream @ comma @ label_name label @ ''='' @ dquote
          @ escape_double_quotes (label_value label) @ dquote,
        '','')"

definition metric_serializer :: "(double \<Rightarrow> string) \<Rightarrow> MetricSerializer" where
  "metric_serializer fmt stream name val labels additional_label =
     (let s1 = stream @ name;
          s2 = (if labels \<noteq> [] \<or> label_name additional_label \<noteq> []
                then (case labels_loop labels (s1 @ ''{'', []) of
                        (s, comma) \<Rightarrow>
                          (if label_name additional_label \<noteq> []
                           then s @ comma @ label_name additional_label @ ''='' @ dquote
                                  @ escape_double_quotes (label_value additional_label) @ dquote
                           else s) @ ''}'')
                else s1)
      in s2 @ '' '' @ fmt val @ endl)"

definition Counter_serialize ::
  "MetricSerializer \<Rightarrow> string \<Rightarrow> string \<Rightarrow> Label list \<Rightarrow> Counter \<Rightarrow> string" where
  "Counter_serialize serializer stream name labels c =
     serializer stream name (load (counter_value c)) labels (Label [] [])"

definition Gauge_serialize ::
  "MetricSerializer \<Rightarrow> string \<Rightarrow> string \<Rightarrow> Label list \<Rightarrow> Gauge \<Rightarrow> string" where
  "Gauge_serialize serializer stream name labels g =
     serializer stream name (load (gauge_value g)) labels (Label [] [])"

fun Histogram_serialize_loop ::
  "(double \<Rightarrow> string) \<Rightarrow> MetricSerializer \<Rightarrow> string \<Rightarrow> Label list
     \<Rightarrow> (double \<times> atomic_double) list \<Rightarrow> string \<Rightarrow> string" where
  "Histogram_serialize_loop to_string serializer name labels [] stream = stream"
| "Histogram_serialize_loop to_string serializer name labels (p # ps) stream =
     Histogram_serialize_loop to_string serializer name labels ps
       (serializer stream name (load (snd p)) labels (Label ''le'' (to_string (fst p))))"

definition Histogram_serialize ::
  "(double \<Rightarrow> string) \<Rightarrow> MetricSerializer \<Rightarrow> string \<Rightarrow> string \<Rightarrow> Label list \<Rightarrow> Histogram
     \<Rightarrow> string" where
  "Histogram_serialize to_string serializer stream name labels h =
     Histogram_serialize_loop to_string serializer name labels (h_buckets h) stream"

text \<open>
  \<open>MetricFamily<T>::serialize\<close> walks the entries of the family in key order and
  serializes the metric behind each pointer under the family's name and the entry's
  label set.
\<close>

fun MetricFamily_serialize_loop ::
  "(MetricSerializer \<Rightarrow> string \<Rightarrow> string \<Rightarrow> Label list \<Rightarrow> 't \<Rightarrow> string)
     \<Rightarrow> MetricSerializer \<Rightarrow> string \<Rightarrow> 't heap \<Rightarrow> (Label list \<times> nat) list \<Rightarrow> string \<Rightarrow> string" where
  "MetricFamily_serialize_loop T_serialize serializer name h [] stream = stream"
| "MetricFamily_serialize_loop T_serialize serializer name h (p # ps) stream =
     MetricFamily_serialize_loop T_serialize serializer name h ps
       (T_serialize serializer stream name (fst p) (cells h (snd p)))"

definition MetricFamily_serialize ::
  "(MetricSerializer \<Rightarrow> string \<Rightarrow> string \<Rightarrow> Label list \<Rightarrow> 't \<Rightarrow> string)
     \<Rightarrow> MetricSerializer \<Rightarrow> string \<Rightarrow> 'a MetricFamily_scheme \<Rightarrow> 't heap \<Rightarrow> string" where
  "MetricFamily_serialize T_serialize serializer stream f h =
     MetricFamily_serialize_loop T_serialize serializer (m_name f) h (metrics f) stream"

record heaps =
  counters :: "Counter heap"
  gauges :: "Gauge heap"
  histograms :: "Histogram heap"

text \<open>The virtual \<open>Metric::serialize\<close>, by the class of the object.\<close>

fun Metric_serialize ::
  "(double \<Rightarrow> string) \<Rightarrow> heaps \<Rightarrow> MetricSerializer \<Rightarrow> string \<Rightarrow> MetricObj \<Rightarrow> string" where
  "Metric_serialize to_string hs serializer stream (CounterMetric m c) =
     Counter_serialize serializer stream (m_name m) [] c"
| "Metric_serialize to_string hs serializer stream (GaugeMetric m g) =
     Gauge_serialize serializer stream (m_name m) [] g"
| "Metric_serialize to_string hs serializer stream (HistogramMetric m h) =
     Histogram_serialize to_string serializer stream (m_name m) [] h"
| "Metric_serialize to_string hs serializer stream (CounterFamily f) =
     MetricFamily_serialize Counter_serialize serializer stream f (counters hs)"
| "Metric_serialize to_string hs serializer stream (GaugeFamily f) =
     MetricFamily_serialize Gauge_serialize serializer stream f (gauges hs)"
| "Metric_serialize to_string hs serializer stream (HistogramFamily f) =
     MetricFamily_serialize (Histogram_serialize to_string) serializer stream f (histograms hs)"

text \<open>One round of the loop of \<open>TextSerializer::serialize\<close>: an expired entry writes nothing.\<close>

definition serialize_entry ::
  "(double \<Rightarrow> string) \<Rightarrow> (double \<Rightarrow> string) \<Rightarrow> heaps \<Rightarrow> store \<Rightarrow> string \<times> nat \<Rightarrow> string \<Rightarrow> string" where
  "serialize_entry fmt to_string hs st p stream =
     (case st (snd p) of
        None \<Rightarrow> stream
      | Some metric \<Rightarrow>
          Metric_serialize to_string hs (metric_serializer fmt)
            (stream @ ''# HELP '' @ obj_get_name metric @ '' '' @ obj_get_description metric @ endl
               @ ''# TYPE '' @ obj_get_name metric @ '' ''
               @ metric_type_to_string (obj_get_type metric) @ endl)
            metric)"

fun serialize ::
  "(double \<Rightarrow> string) \<Rightarrow> (double \<Rightarrow> string) \<Rightarrow> heaps \<Rightarrow> store \<Rightarrow> string
     \<Rightarrow> (string \<times> nat) list \<Rightarrow> string" where
  "serialize fmt to_string hs st stream [] = stream"
| "serialize fmt to_string hs st stream (p # ps) =
     serialize fmt to_string hs st (serialize_entry fmt to_string hs st p stream) ps"

section \<open>The shape of a sample line\<close>



section \<open>The exposition text\<close>


definition ascending :: "Label list \<Rightarrow> Label list" where
  "ascending label_set = sorted_list_of_set (set label_set)"







section \<open>Facts about doubles\<close>

lemma bit_length_0 [simp]: "bit_length 0 = 0"
  by (simp add: bit_length.simps)

lemma bit_length_double: "0 < n \<Longrightarrow> bit_length (2 * n) = Suc (bit_length n)"
  by (subst bit_length.simps) simp

lemma bit_length_shift: "0 < n \<Longrightarrow> bit_length (n * 2 ^ k) = bit_length n + k"
proof (induction k)
  case 0
  show ?case by simp
next
  case (Suc k)
  have "bit_length (n * 2 ^ Suc k) = bit_length (2 * (n * 2 ^ k))"
    by (simp add: mult.left_commute)
  also have "\<dots> = Suc (bit_length (n * 2 ^ k))"
    using Suc.prems by (intro bit_length_double) simp
  finally show ?case
    using Suc by simp
qed

lemma bit_length_le: "n < 2 ^ k \<Longrightarrow> bit_length n \<le> k"
proof (induction k arbitrary: n)
  case 0
  then show ?case by simp
next
  case (Suc k)
  show ?case
  proof (cases "n = 0")
    case True
    then show ?thesis by simp
  next
    case False
    from Suc.prems have "n div 2 < 2 ^ k" by simp
    from Suc.IH [OF this] False show ?thesis
      by (subst bit_length.simps) simp
  qed
qed

lemma round_nat_representable: "representable n \<Longrightarrow> round_nat n = n"
  by (auto simp: representable_def round_nat_def Let_def)

lemma round_double_representable: "representable n \<Longrightarrow> round_double s n = Fin s n"
  by (simp add: round_double_def Let_def round_nat_representable) (simp add: representable_def)

lemma representable_shift:
  assumes "m < 2 ^ 53" and "53 + k \<le> emax"
  shows "representable (m * 2 ^ k)"
proof (cases "m = 0")
  case True
  then show ?thesis by (simp add: representable_def)
next
  case False
  then have bl: "bit_length (m * 2 ^ k) = bit_length m + k"
    by (simp add: bit_length_shift)
  from assms(1) have "bit_length m \<le> 53" by (rule bit_length_le)
  then have "bit_length m + k - 53 \<le> k" by simp
  then have "(2::nat) ^ (bit_length m + k - 53) dvd 2 ^ k"
    by (rule le_imp_power_dvd)
  then have "(2::nat) ^ (bit_length m + k - 53) dvd m * 2 ^ k"
    by (rule dvd_mult)
  then have md: "m * 2 ^ k mod 2 ^ (bit_length m + k - 53) = 0"
    by simp
  have "m * 2 ^ k < 2 ^ 53 * 2 ^ k"
    using assms(1) by simp
  also have "\<dots> = 2 ^ (53 + k)" by (simp only: power_add)
  also have "\<dots> \<le> (2::nat) ^ emax"
    using assms(2) by (intro power_increasing) simp_all
  finally show ?thesis
    by (simp add: representable_def bl md)
qed

lemma round_nat_shift:
  assumes "53 \<le> bit_length a"
  shows "round_nat (a * 2 ^ k) = round_nat a * 2 ^ k"
proof -
  from assms have pos: "0 < a"
    by (cases "a = 0") simp_all
  define s where "s = bit_length a - 53"
  have s': "bit_length (a * 2 ^ k) - 53 = s + k"
    using assms pos by (simp add: bit_length_shift s_def)
  have pw: "(2::nat) ^ (s + k) = 2 ^ s * 2 ^ k"
    by (simp only: power_add)
  have q: "a * 2 ^ k div 2 ^ (s + k) = a div 2 ^ s"
    unfolding pw by simp
  have r: "a * 2 ^ k mod 2 ^ (s + k) = (a mod 2 ^ s) * 2 ^ k"
    unfolding pw by (simp add: mod_mult_mult2)
  have lt: "((2::nat) ^ (s + k) < 2 * ((a mod 2 ^ s) * 2 ^ k)) = (2 ^ s < 2 * (a mod 2 ^ s))"
    unfolding pw by (simp add: mult.assoc [symmetric])
  have eq: "(2 * ((a mod 2 ^ s) * 2 ^ k) = (2::nat) ^ (s + k)) = (2 * (a mod 2 ^ s) = 2 ^ s)"
    unfolding pw by (simp add: mult.assoc [symmetric])
  show ?thesis
    unfolding round_nat_def Let_def s' q r lt eq s_def [symmetric]
    by (simp add: power_add algebra_simps)
qed

lemma representable_count: "k \<le> 2 ^ 53 \<Longrightarrow> representable (k * 2 ^ emin)"
proof (cases "k < 2 ^ 53")
  case True
  then show ?thesis by (intro representable_shift) (simp_all add: emin_def emax_def)
next
  case False
  assume "k \<le> 2 ^ 53"
  with False have k: "k = 2 ^ 53" by simp
  have "representable (1 * 2 ^ (53 + emin))"
    by (intro representable_shift) (simp_all add: emin_def emax_def)
  then show ?thesis by (simp only: k power_add mult_1)
qed

lemma double_of_nat_exact: "k \<le> 2 ^ 53 \<Longrightarrow> double_of_nat k = Fin False (k * 2 ^ emin)"
  unfolding double_of_nat_def by (intro round_double_representable representable_count)

lemma sval_simps [simp]:
  "sval False n = int n" "sval True n = - int n"
  by (simp_all add: sval_def)

lemma dadd_exact:
  assumes "scaled a = Some x" and "scaled b = Some y" and "representable (nat \<bar>x + y\<bar>)"
  shows "scaled (dadd a b) = Some (x + y)"
proof -
  from assms(1) obtain s n where a: "a = Fin s n" and x: "x = sval s n"
    by (cases a) auto
  from assms(2) obtain s' n' where b: "b = Fin s' n'" and y: "y = sval s' n'"
    by (cases b) auto
  show ?thesis
  proof (cases "x + y = 0")
    case True
    then show ?thesis by (simp add: a b x y sval_def)
  next
    case False
    then have "dadd a b = Fin (x + y < 0) (nat \<bar>x + y\<bar>)"
      using assms(3)
      by (simp add: a b x [symmetric] y [symmetric] round_double_representable Let_def)
    then show ?thesis by (simp add: sval_def)
  qed
qed

lemma scaled_dneg: "scaled b = Some y \<Longrightarrow> scaled (dneg b) = Some (- y)"
  by (cases b) (auto simp: sval_def)

lemma dsub_exact:
  assumes "scaled a = Some x" and "scaled b = Some y" and "representable (nat \<bar>x - y\<bar>)"
  shows "scaled (dsub a b) = Some (x - y)"
  using dadd_exact [OF assms(1) scaled_dneg [OF assms(2)]] assms(3)
  by (simp add: dsub_def)

lemma dadd_Fin_pos:
  assumes "0 < n + n'"
  shows "dadd (Fin False n) (Fin False n') = round_double False (n + n')"
proof -
  from assms have "int n + int n' \<noteq> 0" and "\<not> int n + int n' < 0"
    and "nat \<bar>int n + int n'\<bar> = n + n'"
    by linarith+
  then show ?thesis by (simp add: Let_def)
qed

lemma dadd_Fin_pos_neg:
  assumes "n' < n"
  shows "dadd (Fin False n) (Fin True n') = round_double False (n - n')"
proof -
  from assms have "int n + - int n' \<noteq> 0" and "\<not> int n + - int n' < 0"
    and "nat \<bar>int n + - int n'\<bar> = n - n'"
    by linarith+
  then show ?thesis by (simp add: Let_def)
qed

lemma dadd_double_of_nat:
  assumes "a + b \<le> 2 ^ 53"
  shows "dadd (double_of_nat a) (double_of_nat b) = double_of_nat (a + b)"
proof -
  from assms have a: "a \<le> 2 ^ 53" and b: "b \<le> 2 ^ 53" by simp_all
  show ?thesis
  proof (cases "a + b = 0")
    case True
    then show ?thesis
      by (simp add: double_of_nat_exact)
  next
    case False
    then have "0 < a * 2 ^ emin + b * 2 ^ emin" by simp
    from dadd_Fin_pos [OF this]
    show ?thesis
      unfolding double_of_nat_exact [OF a] double_of_nat_exact [OF b]
      by (simp add: double_of_nat_def add_mult_distrib)
  qed
qed

lemma dsub_double_of_nat:
  assumes "b \<le> a" and "a \<le> 2 ^ 53"
  shows "dsub (double_of_nat a) (double_of_nat b) = double_of_nat (a - b)"
proof -
  from assms have b: "b \<le> 2 ^ 53" by simp
  show ?thesis
  proof (cases "a = b")
    case True
    with b show ?thesis
      by (simp add: dsub_def double_of_nat_exact)
  next
    case False
    with assms(1) have "b * 2 ^ emin < a * 2 ^ emin" by simp
    from dadd_Fin_pos_neg [OF this]
    show ?thesis
      unfolding dsub_def double_of_nat_exact [OF assms(2)] double_of_nat_exact [OF b] dneg.simps
      by (simp add: double_of_nat_def diff_mult_distrib)
  qed
qed

lemma round_nat_2_53_1: "round_nat (2 ^ 53 + 1) = 2 ^ 53"
  by (simp add: round_nat_def bit_length.simps Let_def)

lemma dadd_saturated:
  "dadd (double_of_nat (2 ^ 53)) (double_of_nat 1) = double_of_nat (2 ^ 53)"
proof -
  have bl: "53 \<le> bit_length (2 ^ 53 + 1)"
    by (simp add: bit_length.simps)
  have r: "round_nat ((2 ^ 53 + 1) * 2 ^ emin) = 2 ^ 53 * 2 ^ emin"
    unfolding round_nat_shift [OF bl] round_nat_2_53_1 ..
  have "(2::nat) ^ 53 * 2 ^ emin = 2 ^ (53 + emin)"
    by (simp only: power_add)
  also have "\<dots> < 2 ^ emax"
    by (intro power_strict_increasing) (simp_all add: emin_def emax_def)
  finally have lt: "\<not> (2::nat) ^ emax \<le> 2 ^ 53 * 2 ^ emin"
    by simp
  have e1: "double_of_nat (2 ^ 53) = Fin False (2 ^ 53 * 2 ^ emin)"
    by (rule double_of_nat_exact) simp
  have e2: "double_of_nat 1 = Fin False (1 * 2 ^ emin)"
    by (rule double_of_nat_exact) simp
  have "dadd (Fin False (2 ^ 53 * 2 ^ emin)) (Fin False (1 * 2 ^ emin))
      = round_double False (2 ^ 53 * 2 ^ emin + 1 * 2 ^ emin)"
    by (rule dadd_Fin_pos) simp
  then have "dadd (double_of_nat (2 ^ 53)) (double_of_nat 1)
      = round_double False ((2 ^ 53 + 1) * 2 ^ emin)"
    by (simp only: e1 [symmetric] e2 [symmetric] add_mult_distrib [symmetric])
  also have "\<dots> = Fin False (2 ^ 53 * 2 ^ emin)"
    unfolding round_double_def Let_def r using lt by (simp only: if_False)
  also have "\<dots> = double_of_nat (2 ^ 53)"
    by (rule e1 [symmetric])
  finally show ?thesis .
qed

lemma dlt_double_of_nat:
  "a \<le> 2 ^ 53 \<Longrightarrow> b \<le> 2 ^ 53 \<Longrightarrow> dlt (double_of_nat a) (double_of_nat b) = (a < b)"
  by (simp add: double_of_nat_exact del: of_nat_mult of_nat_power)

lemma dle_double_of_nat:
  "a \<le> 2 ^ 53 \<Longrightarrow> b \<le> 2 ^ 53 \<Longrightarrow> dle (double_of_nat a) (double_of_nat b) = (a \<le> b)"
  by (simp add: double_of_nat_exact del: of_nat_mult of_nat_power)

lemma double_zero: "double_of_nat 0 = Fin False 0"
  using double_of_nat_exact [of 0] by simp

lemma dle_zero_not_dgt: "dle v (double_of_nat 0) \<Longrightarrow> \<not> dgt v (double_of_nat 0)"
  by (cases v) (simp_all add: dgt_def double_zero)

section \<open>Counter.add and Gauge.sub\<close>

text \<open>
  Claim C6 says that \<open>Counter.add(v)\<close> with \<open>v > 0\<close> increases the value by exactly \<open>v\<close>.
  The value is a double and the sum is rounded: a counter at \<open>2^53\<close> that is given
  \<open>add(1)\<close> stays at \<open>2^53\<close>.
\<close>

theorem counter_add_not_exact:
  "dgt (double_of_nat 1) (double_of_nat 0)
   \<and> scaled (Counter_get \<lparr>counter_value = double_of_nat (2 ^ 53)\<rparr>) = Some (2 ^ 53 * 2 ^ emin)
   \<and> scaled (double_of_nat 1) = Some (2 ^ emin)
   \<and> scaled (Counter_get (Counter_add (double_of_nat 1) \<lparr>counter_value = double_of_nat (2 ^ 53)\<rparr>))
       = Some (2 ^ 53 * 2 ^ emin)
   \<and> (2 ^ 53 * 2 ^ emin :: int) \<noteq> 2 ^ 53 * 2 ^ emin + 2 ^ emin"
proof -
  have pos: "dgt (double_of_nat 1) (double_of_nat 0)"
    by (simp add: dgt_def dlt_double_of_nat)
  have big: "scaled (double_of_nat (2 ^ 53)) = Some (2 ^ 53 * 2 ^ emin)"
    by (simp add: double_of_nat_exact)
  have one: "scaled (double_of_nat 1) = Some (2 ^ emin)"
    using double_of_nat_exact [of 1] by simp
  have old: "scaled (Counter_get \<lparr>counter_value = double_of_nat (2 ^ 53)\<rparr>) = Some (2 ^ 53 * 2 ^ emin)"
    using big by (simp add: Counter_get_def load_def)
  have new: "scaled (Counter_get (Counter_add (double_of_nat 1) \<lparr>counter_value = double_of_nat (2 ^ 53)\<rparr>))
       = Some (2 ^ 53 * 2 ^ emin)"
    using pos big dadd_saturated
    by (simp add: Counter_add_def Counter_get_def atomic_add_def change_def load_def)
  have ne: "(2 ^ 53 * 2 ^ emin :: int) \<noteq> 2 ^ 53 * 2 ^ emin + 2 ^ emin"
    by simp
  show ?thesis
    by (intro conjI) (fact pos old one new ne)+
qed

text \<open>
  Claim C6, amended. \<open>Counter.add(v)\<close> with \<open>v \<le> 0\<close> leaves the counter as it is; with
  \<open>v > 0\<close> the new value is the double-precision sum of the old value and \<open>v\<close>, which is
  the old value plus \<open>v\<close> exactly whenever that number is a double. \<open>Gauge.sub(v)\<close> with
  \<open>v \<le> 0\<close> leaves the gauge as it is; with \<open>v > 0\<close> the new value is the
  double-precision difference, exact whenever the old value minus \<open>v\<close> is a double.
\<close>

theorem counter_add_gauge_sub:
  "(dle v (double_of_nat 0) \<longrightarrow> Counter_add v c = c)
   \<and> (dgt v (double_of_nat 0) \<longrightarrow> Counter_get (Counter_add v c) = dadd (Counter_get c) v)
   \<and> (\<forall>x y. dgt v (double_of_nat 0) \<and> scaled (Counter_get c) = Some x \<and> scaled v = Some y
          \<and> representable (nat \<bar>x + y\<bar>)
        \<longrightarrow> scaled (Counter_get (Counter_add v c)) = Some (x + y))
   \<and> (dle v (double_of_nat 0) \<longrightarrow> Gauge_sub v g = g)
   \<and> (dgt v (double_of_nat 0) \<longrightarrow> Gauge_get (Gauge_sub v g) = dsub (Gauge_get g) v)
   \<and> (\<forall>x y. dgt v (double_of_nat 0) \<and> scaled (Gauge_get g) = Some x \<and> scaled v = Some y
          \<and> representable (nat \<bar>x - y\<bar>)
        \<longrightarrow> scaled (Gauge_get (Gauge_sub v g)) = Some (x - y))"
proof -
  have c_add: "dgt v (double_of_nat 0) \<longrightarrow> Counter_get (Counter_add v c) = dadd (Counter_get c) v"
    by (simp add: Counter_add_def Counter_get_def atomic_add_def change_def load_def)
  have g_sub: "dgt v (double_of_nat 0) \<longrightarrow> Gauge_get (Gauge_sub v g) = dsub (Gauge_get g) v"
    by (simp add: Gauge_sub_def Gauge_get_def atomic_sub_def change_def load_def)
  have c_keep: "dle v (double_of_nat 0) \<longrightarrow> Counter_add v c = c"
    using dle_zero_not_dgt [of v] by (auto simp: Counter_add_def)
  have g_keep: "dle v (double_of_nat 0) \<longrightarrow> Gauge_sub v g = g"
    using dle_zero_not_dgt [of v] by (auto simp: Gauge_sub_def)
  have c_exact: "\<forall>x y. dgt v (double_of_nat 0) \<and> scaled (Counter_get c) = Some x \<and> scaled v = Some y
          \<and> representable (nat \<bar>x + y\<bar>)
        \<longrightarrow> scaled (Counter_get (Counter_add v c)) = Some (x + y)"
    using c_add by (auto intro: dadd_exact)
  have g_exact: "\<forall>x y. dgt v (double_of_nat 0) \<and> scaled (Gauge_get g) = Some x \<and> scaled v = Some y
          \<and> representable (nat \<bar>x - y\<bar>)
        \<longrightarrow> scaled (Gauge_get (Gauge_sub v g)) = Some (x - y)"
    using g_sub by (auto intro: dsub_exact)
  show ?thesis
    by (intro conjI) (fact c_keep c_add c_exact g_keep g_sub g_exact)+
qed

theorem counter_add_gauge_sub_witness:
  "Counter_add (dneg (double_of_nat 3)) \<lparr>counter_value = double_of_nat 5\<rparr>
     = \<lparr>counter_value = double_of_nat 5\<rparr>
   \<and> Counter_get (Counter_add (double_of_nat 2) \<lparr>counter_value = double_of_nat 5\<rparr>) = double_of_nat 7
   \<and> Gauge_sub (double_of_nat 0) \<lparr>gauge_value = double_of_nat 5\<rparr> = \<lparr>gauge_value = double_of_nat 5\<rparr>
   \<and> Gauge_get (Gauge_sub (double_of_nat 2) \<lparr>gauge_value = double_of_nat 5\<rparr>) = double_of_nat 3"
proof -
  let ?c = "\<lparr>counter_value = double_of_nat 5\<rparr>"
  let ?g = "\<lparr>gauge_value = double_of_nat 5\<rparr>"
  have neg: "dle (dneg (double_of_nat 3)) (double_of_nat 0)"
    using double_of_nat_exact [of 3] by (simp add: double_zero)
  have zero: "dle (double_of_nat 0) (double_of_nat 0)"
    by (simp add: dle_double_of_nat)
  have pos: "dgt (double_of_nat 2) (double_of_nat 0)"
    by (simp add: dgt_def dlt_double_of_nat)
  have c5: "Counter_get ?c = double_of_nat 5" and g5: "Gauge_get ?g = double_of_nat 5"
    by (simp_all add: Counter_get_def Gauge_get_def load_def)
  have sum: "dadd (double_of_nat 5) (double_of_nat 2) = double_of_nat 7"
    using dadd_double_of_nat [of 5 2] by simp
  have diff: "dsub (double_of_nat 5) (double_of_nat 2) = double_of_nat 3"
    using dsub_double_of_nat [of 2 5] by simp
  from counter_add_gauge_sub [of "dneg (double_of_nat 3)" ?c ?g] neg
  have a: "Counter_add (dneg (double_of_nat 3)) ?c = ?c"
    by blast
  from counter_add_gauge_sub [of "double_of_nat 2" ?c ?g] pos
  have b: "Counter_get (Counter_add (double_of_nat 2) ?c) = double_of_nat 7"
    and d: "Gauge_get (Gauge_sub (double_of_nat 2) ?g) = double_of_nat 3"
    by (simp_all add: c5 g5 sum diff)
  from counter_add_gauge_sub [of "double_of_nat 0" ?c ?g] zero
  have c: "Gauge_sub (double_of_nat 0) ?g = ?g"
    by blast
  show ?thesis
    by (intro conjI) (fact a b c d)+
qed

section \<open>Concurrent updates of one accumulator\<close>

lemma single_thread_add:
  "run [(0, False), (0, False), (0, False)] (a, [Start (Add v)]) = (atomic_add v a, [Done])"
  by (simp add: run_def atomic_add_def change_def load_def)

lemma single_thread_sub:
  "run [(0, False), (0, False), (0, False)] (a, [Start (Sub v)]) = (atomic_sub v a, [Done])"
  by (simp add: run_def atomic_sub_def change_def load_def)

text \<open>
  Claim C9 says that no concurrent update is lost. The code computes the target from a
  load made before the loop of \<open>change\<close> and never recomputes it, so the loop stores a
  stale sum: two threads that each add 1 to an accumulator holding 0, both loading before
  either stores, finish with the accumulator at 1 where the claim expects 2.
\<close>

theorem lost_update_two_adders:
  "run [(0, False), (1, False), (0, False), (0, False), (1, False), (1, False)]
       (double_of_nat 0, [Start (Add (double_of_nat 1)), Start (Add (double_of_nat 1))])
     = (double_of_nat 1, [Done, Done])
   \<and> fold apply_op [Add (double_of_nat 1), Add (double_of_nat 1)] (double_of_nat 0)
     = double_of_nat 2
   \<and> double_of_nat 1 \<noteq> double_of_nat 2"
proof -
  have s01: "dadd (double_of_nat 0) (double_of_nat 1) = double_of_nat 1"
    using dadd_double_of_nat [of 0 1] by simp
  have "(1::nat) + 1 \<le> 2 ^ 53" and two: "(1::nat) + 1 = 2"
    by simp_all
  from dadd_double_of_nat [OF this(1)]
  have s11: "dadd (double_of_nat 1) (double_of_nat 1) = double_of_nat 2"
    by (simp only: two)
  have ne: "double_of_nat 1 \<noteq> double_of_nat 2"
    using double_of_nat_exact [of 1] double_of_nat_exact [of 2] by simp
  have r: "run [(0, False), (1, False), (0, False), (0, False), (1, False), (1, False)]
       (double_of_nat 0, [Start (Add (double_of_nat 1)), Start (Add (double_of_nat 1))])
     = (double_of_nat 1, [Done, Done])"
    by (simp add: run_def load_def s01 [unfolded One_nat_def])
  have e: "fold apply_op [Add (double_of_nat 1), Add (double_of_nat 1)] (double_of_nat 0)
     = double_of_nat 2"
    by (simp add: s01 [unfolded One_nat_def] s11 [unfolded One_nat_def])
  show ?thesis
    by (intro conjI) (fact r e ne)+
qed

section \<open>Facts about the ordered containers\<close>

lemma equiv_iff_eq: "(\<not> x < y \<and> \<not> y < x) = (x = y)" for x y :: "'a::linorder"
  by auto

lemma Label_less [simp]:
  "(Label n v < Label n' v') = (n < n' \<or> (n = n' \<and> v < v'))"
  by (auto simp: less_Label_def less_prod_def)

lemma set_find_iff: "set_find x ys = (x \<in> set ys)"
  by (induction ys) auto

lemma map_find_map_of: "map_find k m = map_of m k"
  by (induction m) auto

lemma map_find_None_iff: "(map_find k m = None) = (k \<notin> fst ` set m)"
  by (simp add: map_find_map_of map_of_eq_None_iff)

lemma map_find_Some_mem: "map_find k m = Some v \<Longrightarrow> (k, v) \<in> set m"
  by (simp add: map_find_map_of map_of_SomeD)

lemma map_insert_Cons:
  "map_insert (k, v) ((k', v') # m) =
     (if k < k' then (k, v) # (k', v') # m
      else if k = k' then (k', v') # m
      else (k', v') # map_insert (k, v) m)"
  by auto

lemma map_insert_keys: "fst ` set (map_insert (k, v) m) = insert k (fst ` set m)"
proof (induction m)
  case Nil
  show ?case by simp
next
  case (Cons p m)
  obtain k' v' where p: "p = (k', v')" by (cases p)
  show ?case
    unfolding p map_insert_Cons using Cons.IH by (simp add: insert_commute)
qed

lemma map_insert_absent_set:
  "map_find k m = None \<Longrightarrow> set (map_insert (k, v) m) = insert (k, v) (set m)"
  by (induction m) (auto split: if_splits)

lemma map_insert_mono: "set m \<subseteq> set (map_insert (k, v) m)"
  by (induction m) (auto split: if_splits)

lemma map_insert_subset: "set (map_insert (k, v) m) \<subseteq> insert (k, v) (set m)"
  by (induction m) (auto split: if_splits)

lemma map_insert_absent_length:
  "map_find k m = None \<Longrightarrow> length (map_insert (k, v) m) = Suc (length m)"
  by (induction m) (auto split: if_splits)

lemma map_insert_absent_find_same:
  "map_find k m = None \<Longrightarrow> map_find k (map_insert (k, v) m) = Some v"
  by (induction m) (auto split: if_splits)

lemma map_insert_find_other:
  "k' \<noteq> k \<Longrightarrow> map_find k' (map_insert (k, v) m) = map_find k' m"
  by (induction m) auto

lemma map_insert_sorted:
  "sorted_wrt (<) (map fst m) \<Longrightarrow> sorted_wrt (<) (map fst (map_insert (k, v) m))"
proof (induction m)
  case Nil
  then show ?case by simp
next
  case (Cons p m)
  obtain k' v' where p: "p = (k', v')" by (cases p)
  from Cons.prems have tl: "sorted_wrt (<) (map fst m)" and hd: "\<forall>x \<in> fst ` set m. k' < x"
    by (auto simp: p)
  show ?case
  proof (cases "k < k'")
    case True
    with Cons.prems show ?thesis by (auto simp: p)
  next
    case False
    show ?thesis
    proof (cases "k' < k")
      case True
      have "\<forall>x \<in> fst ` set (map_insert (k, v) m). k' < x"
        using hd True by (simp add: map_insert_keys)
      with Cons.IH [OF tl] False True show ?thesis by (simp add: p)
    next
      case False
      with \<open>\<not> k < k'\<close> Cons.prems show ?thesis by (simp add: p)
    qed
  qed
qed

lemma set_insert_set: "set (set_insert x ys) = insert x (set ys)"
  by (induction ys) auto

lemma set_insert_sorted: "sorted_wrt (<) ys \<Longrightarrow> sorted_wrt (<) (set_insert x ys)"
  by (induction ys) (auto simp: set_insert_set)

lemma fold_set_insert_set: "set (fold set_insert xs ys) = set xs \<union> set ys"
  by (induction xs arbitrary: ys) (auto simp: set_insert_set)

lemma fold_set_insert_sorted:
  "sorted_wrt (<) ys \<Longrightarrow> sorted_wrt (<) (fold set_insert xs ys)"
  by (induction xs arbitrary: ys) (auto simp: set_insert_sorted)

lemma set_of_list_sorted_list: "set_of_list xs = sorted_list_of_set (set xs)"
proof -
  have "sorted_wrt (<) (set_of_list xs)" and "set (set_of_list xs) = set xs"
    by (simp_all add: set_of_list_def fold_set_insert_sorted fold_set_insert_set)
  then show ?thesis
    by (metis sorted_list_of_set.idem_if_sorted_distinct strict_sorted_iff)
qed

section \<open>The label cache of a metric family\<close>

lemma labels_valid_unfold:
  assumes "length labels = length (labels_names f)"
    and "\<forall>l \<in> set labels. label_name l \<in> set (labels_names f)"
  shows "MetricFamily_labels t labels f h =
     (case map_find labels (metrics f) of
        Some res \<Rightarrow> (Inr res, f, h)
      | None \<Rightarrow>
          (Inr (next_free h),
           f\<lparr>metrics := map_insert (labels, next_free h) (metrics f)\<rparr>,
           h\<lparr>cells := (cells h)(next_free h := t), next_free := Suc (next_free h)\<rparr>))"
  using assms
  by (simp add: MetricFamily_labels_def make_shared_def list_ex_iff set_find_iff
      split: option.splits)

lemma labels_only_grows:
  "MetricFamily_labels t labels f h = (r, f', h') \<Longrightarrow> set (metrics f) \<subseteq> set (metrics f')"
  using map_insert_mono [of "metrics f" labels "next_free h"]
  by (auto simp: MetricFamily_labels_def make_shared_def split: if_splits option.splits)

lemma labels_keys_fit_schema:
  assumes "MetricFamily_labels t labels f h = (r, f', h')"
    and "\<forall>key \<in> fst ` set (metrics f).
           length key = length (labels_names f) \<and> label_name ` set key \<subseteq> set (labels_names f)"
  shows "\<forall>key \<in> fst ` set (metrics f').
           length key = length (labels_names f') \<and> label_name ` set key \<subseteq> set (labels_names f')"
proof (cases "isl r")
  case True
  with assms show ?thesis
    by (auto simp: MetricFamily_labels_def make_shared_def split: if_splits option.splits)
next
  case False
  with assms(1) have len: "length labels = length (labels_names f)"
    and names: "\<forall>l \<in> set labels. label_name l \<in> set (labels_names f)"
    by (auto simp: MetricFamily_labels_def list_ex_iff set_find_iff split: if_splits)
  show ?thesis
  proof (cases "map_find labels (metrics f)")
    case None
    with assms(1) have f': "f' = f\<lparr>metrics := map_insert (labels, next_free h) (metrics f)\<rparr>"
      by (simp add: labels_valid_unfold [OF len names])
    show ?thesis
      using assms(2) len names by (auto simp: f' map_insert_keys)
  next
    case (Some res)
    with assms(1) have "f' = f"
      by (simp add: labels_valid_unfold [OF len names])
    with assms(2) show ?thesis by simp
  qed
qed

text \<open>
  Claim C4. \<open>labels\<close> fails, with an invalid-argument error, exactly when the label set
  has another size than the schema or holds a label whose name is not in the schema; a
  failing call returns the family and the heap of metrics as it found them.
\<close>

theorem labels_fails_iff:
  "((\<exists>msg. fst (MetricFamily_labels t labels f h) = Inl (invalid_argument msg))
      \<longleftrightarrow> (length labels \<noteq> length (labels_names f)
           \<or> (\<exists>l \<in> set labels. label_name l \<notin> set (labels_names f))))
   \<and> (isl (fst (MetricFamily_labels t labels f h))
        \<longrightarrow> snd (MetricFamily_labels t labels f h) = (f, h))"
  by (auto simp: MetricFamily_labels_def make_shared_def list_ex_iff set_find_iff
      split: option.splits)

theorem labels_fails_iff_witness:
  "fst (MetricFamily_labels (Gauge_new (double_of_nat 0)) [Label ''l1'' ''1'', Label ''l3'' ''2'']
         \<lparr>m_name = ''my_gauge'', m_description = ''used for tests'', m_type = Gauge,
          labels_names = [''l1'', ''l2''], metrics = []\<rparr>
         \<lparr>cells = \<lambda>_. Gauge_new (double_of_nat 0), next_free = 0\<rparr>)
     = Inl (invalid_argument ''Incorrect label combinaison given'')
   \<and> snd (MetricFamily_labels (Gauge_new (double_of_nat 0)) [Label ''l1'' ''1'', Label ''l3'' ''2'']
         \<lparr>m_name = ''my_gauge'', m_description = ''used for tests'', m_type = Gauge,
          labels_names = [''l1'', ''l2''], metrics = []\<rparr>
         \<lparr>cells = \<lambda>_. Gauge_new (double_of_nat 0), next_free = 0\<rparr>)
     = (\<lparr>m_name = ''my_gauge'', m_description = ''used for tests'', m_type = Gauge,
          labels_names = [''l1'', ''l2''], metrics = []\<rparr>,
        \<lparr>cells = \<lambda>_. Gauge_new (double_of_nat 0), next_free = 0\<rparr>)"
proof -
  let ?f = "\<lparr>m_name = ''my_gauge'', m_description = ''used for tests'', m_type = Gauge,
          labels_names = [''l1'', ''l2''], metrics = []\<rparr>"
  let ?h = "\<lparr>cells = \<lambda>_. Gauge_new (double_of_nat 0), next_free = 0\<rparr>"
  let ?ls = "[Label ''l1'' ''1'', Label ''l3'' ''2'']"
  have e: "fst (MetricFamily_labels (Gauge_new (double_of_nat 0)) ?ls ?f ?h)
             = Inl (invalid_argument ''Incorrect label combinaison given'')"
    by (simp add: MetricFamily_labels_def)
  then have "isl (fst (MetricFamily_labels (Gauge_new (double_of_nat 0)) ?ls ?f ?h))"
    by simp
  with labels_fails_iff [of "Gauge_new (double_of_nat 0)" ?ls ?f ?h]
  have "snd (MetricFamily_labels (Gauge_new (double_of_nat 0)) ?ls ?f ?h) = (?f, ?h)"
    by blast
  with e show ?thesis by simp
qed

text \<open>
  Claim C3. For a label set that passes the validation: when it is already a key,
  \<open>labels\<close> returns the pointer stored under it and changes neither the family nor any
  metric, whatever the construction arguments; when it is not, \<open>labels\<close> allocates one
  metric built from the arguments, stores the pointer under the label set (the other
  entries stay) and returns it. A second call with the same label set returns the pointer
  of the first and changes nothing.
\<close>

theorem labels_existing_or_new:
  assumes "length labels = length (labels_names f)"
    and "\<forall>l \<in> set labels. label_name l \<in> set (labels_names f)"
  shows "(\<forall>res. map_find labels (metrics f) = Some res
            \<longrightarrow> MetricFamily_labels t labels f h = (Inr res, f, h))
    \<and> (map_find labels (metrics f) = None
         \<longrightarrow> (\<exists>f' h'. MetricFamily_labels t labels f h = (Inr (next_free h), f', h')
               \<and> map_find labels (metrics f') = Some (next_free h)
               \<and> (\<forall>k. k \<noteq> labels \<longrightarrow> map_find k (metrics f') = map_find k (metrics f))
               \<and> length (metrics f') = Suc (length (metrics f))
               \<and> cells h' = (cells h)(next_free h := t)
               \<and> next_free h' = Suc (next_free h)))
    \<and> (\<forall>r f' h' t'. MetricFamily_labels t labels f h = (r, f', h')
         \<longrightarrow> MetricFamily_labels t' labels f' h' = (r, f', h'))"
proof (cases "map_find labels (metrics f)")
  case None
  let ?f' = "f\<lparr>metrics := map_insert (labels, next_free h) (metrics f)\<rparr>"
  let ?h' = "h\<lparr>cells := (cells h)(next_free h := t), next_free := Suc (next_free h)\<rparr>"
  have first: "MetricFamily_labels t labels f h = (Inr (next_free h), ?f', ?h')"
    by (simp add: labels_valid_unfold [OF assms] None)
  have found: "map_find labels (metrics ?f') = Some (next_free h)"
    using None by (simp add: map_insert_absent_find_same)
  have again: "MetricFamily_labels t' labels ?f' ?h' = (Inr (next_free h), ?f', ?h')" for t'
  proof -
    have "length labels = length (labels_names ?f')"
      and "\<forall>l \<in> set labels. label_name l \<in> set (labels_names ?f')"
      using assms by simp_all
    from labels_valid_unfold [OF this] found show ?thesis by simp
  qed
  from None first found again show ?thesis
    by (simp add: map_insert_absent_length map_insert_find_other)
next
  case (Some res)
  then show ?thesis
    by (simp add: labels_valid_unfold [OF assms])
qed

theorem labels_existing_or_new_witness:
  "MetricFamily_labels (Gauge_new (double_of_nat 588)) [Label ''l1'' ''1'', Label ''l2'' ''2'']
       \<lparr>m_name = ''my_gauge'', m_description = ''used for tests'', m_type = Gauge,
        labels_names = [''l1'', ''l2''],
        metrics = [([Label ''l1'' ''0'', Label ''l2'' ''0''], 0)]\<rparr>
       \<lparr>cells = \<lambda>_. Gauge_new (double_of_nat 42), next_free = 1\<rparr>
     = (Inr 1,
        \<lparr>m_name = ''my_gauge'', m_description = ''used for tests'', m_type = Gauge,
         labels_names = [''l1'', ''l2''],
         metrics = [([Label ''l1'' ''0'', Label ''l2'' ''0''], 0),
                    ([Label ''l1'' ''1'', Label ''l2'' ''2''], 1)]\<rparr>,
        \<lparr>cells = (\<lambda>_. Gauge_new (double_of_nat 42))(1 := Gauge_new (double_of_nat 588)), next_free = 2\<rparr>)
   \<and> MetricFamily_labels (Gauge_new (double_of_nat 7)) [Label ''l1'' ''0'', Label ''l2'' ''0'']
       \<lparr>m_name = ''my_gauge'', m_description = ''used for tests'', m_type = Gauge,
        labels_names = [''l1'', ''l2''],
        metrics = [([Label ''l1'' ''0'', Label ''l2'' ''0''], 0)]\<rparr>
       \<lparr>cells = \<lambda>_. Gauge_new (double_of_nat 42), next_free = 1\<rparr>
     = (Inr 0,
        \<lparr>m_name = ''my_gauge'', m_description = ''used for tests'', m_type = Gauge,
         labels_names = [''l1'', ''l2''],
         metrics = [([Label ''l1'' ''0'', Label ''l2'' ''0''], 0)]\<rparr>,
        \<lparr>cells = \<lambda>_. Gauge_new (double_of_nat 42), next_free = 1\<rparr>)"
proof -
  let ?f = "\<lparr>m_name = ''my_gauge'', m_description = ''used for tests'', m_type = Gauge,
        labels_names = [''l1'', ''l2''],
        metrics = [([Label ''l1'' ''0'', Label ''l2'' ''0''], 0)]\<rparr>"
  let ?h = "\<lparr>cells = \<lambda>_. Gauge_new (double_of_nat 42), next_free = 1\<rparr>"
  let ?new = "[Label ''l1'' ''1'', Label ''l2'' ''2'']"
  let ?old = "[Label ''l1'' ''0'', Label ''l2'' ''0'']"
  have absent: "map_find ?new (metrics ?f) = None"
    by simp
  have present: "map_find ?old (metrics ?f) = Some 0"
    by simp
  have ins: "map_insert (?new, 1) [(?old, 0)] = [(?old, 0), (?new, 1)]"
    by simp
  have l1: "length ?new = length (labels_names ?f)"
    and n1: "\<forall>l \<in> set ?new. label_name l \<in> set (labels_names ?f)"
    and l2: "length ?old = length (labels_names ?f)"
    and n2: "\<forall>l \<in> set ?old. label_name l \<in> set (labels_names ?f)"
    by simp_all
  from labels_existing_or_new [OF l1 n1, of "Gauge_new (double_of_nat 588)" ?h] absent
  obtain f' h' where call: "MetricFamily_labels (Gauge_new (double_of_nat 588)) ?new ?f ?h = (Inr (next_free ?h), f', h')"
    by blast
  have a: "MetricFamily_labels (Gauge_new (double_of_nat 588)) ?new ?f ?h
      = (Inr 1, ?f\<lparr>metrics := [(?old, 0), (?new, 1)]\<rparr>,
         \<lparr>cells = (\<lambda>_. Gauge_new (double_of_nat 42))(1 := Gauge_new (double_of_nat 588)), next_free = 2\<rparr>)"
    using call by (auto simp: MetricFamily_labels_def make_shared_def numeral_2_eq_2)
  from labels_existing_or_new [OF l2 n2, of "Gauge_new (double_of_nat 7)" ?h] present
  have b: "MetricFamily_labels (Gauge_new (double_of_nat 7)) ?old ?f ?h = (Inr 0, ?f, ?h)"
    by blast
  from a b show ?thesis by simp
qed

section \<open>Keys of a family and the schema\<close>

text \<open>
  What the validation of \<open>labels\<close> establishes for every key, and that entries are never
  removed: \<open>labels_keys_fit_schema\<close> and \<open>labels_only_grows\<close> above. It does not
  establish that a key names every label of the schema once: \<open>std::set<Label>\<close> orders
  labels by name and value, so one set can hold two labels of the same name.

  Claim C1 says that every key consists of exactly the schema's label names, each once.
  On the family of the test scenario (schema \<open>l1\<close>, \<open>l2\<close>) the label set
  \<open>{l1="0", l1="1"}\<close> has the size of the schema and only names of the schema, so
  \<open>labels\<close> accepts it and stores a key that names \<open>l1\<close> twice and \<open>l2\<close> never.
\<close>

theorem labels_accepts_repeated_name:
  "GaugeFamily_new ''my_gauge'' ''used for tests'' [''l1'', ''l2'']
     = Inr \<lparr>m_name = ''my_gauge'', m_description = ''used for tests'', m_type = Gauge,
            labels_names = [''l1'', ''l2''], metrics = []\<rparr>
   \<and> sorted_wrt (<) [Label ''l1'' ''0'', Label ''l1'' ''1'']
   \<and> GaugeFamily_labels [Label ''l1'' ''0'', Label ''l1'' ''1''] (double_of_nat 0)
        \<lparr>m_name = ''my_gauge'', m_description = ''used for tests'', m_type = Gauge,
         labels_names = [''l1'', ''l2''], metrics = []\<rparr>
        \<lparr>cells = \<lambda>_. Gauge_new (double_of_nat 0), next_free = 0\<rparr>
     = (Inr 0,
        \<lparr>m_name = ''my_gauge'', m_description = ''used for tests'', m_type = Gauge,
         labels_names = [''l1'', ''l2''],
         metrics = [([Label ''l1'' ''0'', Label ''l1'' ''1''], 0)]\<rparr>,
        \<lparr>cells = (\<lambda>_. Gauge_new (double_of_nat 0))(0 := Gauge_new (double_of_nat 0)), next_free = Suc 0\<rparr>)
   \<and> map label_name [Label ''l1'' ''0'', Label ''l1'' ''1''] \<noteq> [''l1'', ''l2'']"
  by (simp add: GaugeFamily_new_def MetricFamily_new_def Metric_new_def check_name_format_def
      check_label_name_format_def is_alpha_def is_digit_def Metric.extend_def
      GaugeFamily_labels_def MetricFamily_labels_def make_shared_def)

section \<open>The kind tag of a histogram family\<close>

lemma HistogramFamily_new_type:
  "HistogramFamily_new name description names bs = Inr f \<Longrightarrow> get_type f = Gauge"
  by (auto simp: HistogramFamily_new_def MetricFamily_new_def Metric_new_def get_type_def
      Metric.extend_def MetricFamily.extend_def split: sum.splits)

lemma HistogramMetric_new_type:
  "HistogramMetric_new name description bs = Inr obj \<Longrightarrow> obj_get_type obj = Histogram"
  by (auto simp: HistogramMetric_new_def Metric_new_def get_type_def split: sum.splits)

text \<open>
  Claim C2 says that a \<open>HistogramFamily\<close> has the kind tag Histogram and is announced by
  a \<open># TYPE <name> histogram\<close> line. The constructor of \<open>HistogramFamily\<close> hands
  \<open>MetricType::Gauge\<close> to \<open>MetricFamily\<close>, where \<open>HistogramMetric\<close> hands
  \<open>MetricType::Histogram\<close> to \<open>Metric\<close>: the family's tag is Gauge and its line reads
  \<open># TYPE <name> gauge\<close>.
\<close>

theorem histogram_family_tagged_gauge:
  "HistogramFamily_new ''latency'' ''request latency'' [''path''] default_buckets
     = Inr \<lparr>m_name = ''latency'', m_description = ''request latency'', m_type = Gauge,
            labels_names = [''path''], metrics = [], hf_buckets = default_buckets\<rparr>
   \<and> get_type \<lparr>m_name = ''latency'', m_description = ''request latency'', m_type = Gauge,
            labels_names = [''path''], metrics = [], hf_buckets = default_buckets\<rparr> = Gauge
   \<and> serialize fmt to_string hs
        (Map.empty(0 \<mapsto> HistogramFamily
            \<lparr>m_name = ''latency'', m_description = ''request latency'', m_type = Gauge,
             labels_names = [''path''], metrics = [], hf_buckets = default_buckets\<rparr>))
        [] [(''latency'', 0)]
     = ''# HELP latency request latency'' @ endl @ ''# TYPE latency gauge'' @ endl"
  by (simp add: HistogramFamily_new_def MetricFamily_new_def Metric_new_def
      check_name_format_def check_label_name_format_def is_alpha_def is_digit_def
      Metric.extend_def MetricFamily.extend_def get_type_def get_name_def get_description_def
      serialize_entry_def MetricFamily_serialize_def)

section \<open>Registry\<close>

lemma map_erase_find:
  "map_find k' (snd (map_erase k m)) = (if k' = k then None else map_find k' m)"
proof -
  have flt: "(\<lambda>p. case p of (k', v) \<Rightarrow> k < k' \<or> k' < k) = (\<lambda>p. fst p \<noteq> k)"
    by (auto simp: fun_eq_iff)
  have "map_of (filter (\<lambda>p. fst p \<noteq> k) m) k' = (if k' = k then None else map_of m k')"
    by (induction m) auto
  then show ?thesis
    by (simp add: map_erase_def Let_def map_find_map_of flt)
qed

lemma map_erase_count:
  "(fst (map_erase k m) \<noteq> 0) = (map_find k m \<noteq> None)"
proof -
  have flt: "(\<lambda>p. case p of (k', v) \<Rightarrow> k < k' \<or> k' < k) = (\<lambda>p. fst p \<noteq> k)"
    by (auto simp: fun_eq_iff)
  have "(length (filter (\<lambda>p. fst p \<noteq> k) m) < length m) = (k \<in> fst ` set m)"
    by (induction m) (auto simp: less_Suc_eq_le)
  then show ?thesis
    using map_find_None_iff [of k m] by (simp add: map_erase_def Let_def flt not_le)
qed

lemma map_erase_absent:
  "map_find k m = None \<Longrightarrow> snd (map_erase k m) = m"
proof -
  assume "map_find k m = None"
  then have "\<forall>p \<in> set m. fst p \<noteq> k"
    by (auto simp: map_find_None_iff)
  then have "filter (\<lambda>(k', v). k < k' \<or> k' < k) m = m"
    by (intro filter_True) auto
  then show ?thesis by (simp add: map_erase_def Let_def)
qed

lemma get_metric_find: "get_metric n r = map_find n (register_metrics r)"
  by (simp add: get_metric_def)

lemma register_metric_names_agree:
  assumes "register_metric st p r = Some (b, r')"
    and "\<forall>e \<in> set (register_metrics r). \<forall>obj. st (snd e) = Some obj \<longrightarrow> obj_get_name obj = fst e"
  shows "\<forall>e \<in> set (register_metrics r'). \<forall>obj. st (snd e) = Some obj \<longrightarrow> obj_get_name obj = fst e"
proof (cases "st p")
  case None
  with assms(1) show ?thesis by (simp add: register_metric_def)
next
  case (Some obj)
  show ?thesis
  proof (cases "map_find (obj_get_name obj) (register_metrics r)")
    case None
    with Some assms(1)
    have "register_metrics r' = map_insert (obj_get_name obj, p) (register_metrics r)"
      by (auto simp: register_metric_def Let_def)
    with None have "set (register_metrics r') = insert (obj_get_name obj, p) (set (register_metrics r))"
      by (simp add: map_insert_absent_set)
    with assms(2) Some show ?thesis by auto
  next
    case (Some q)
    with \<open>st p = Some obj\<close> assms(1) have "r' = r"
      by (auto simp: register_metric_def Let_def)
    with assms(2) show ?thesis by simp
  qed
qed

lemma register_metric_sorted:
  assumes "register_metric st p r = Some (b, r')"
    and "sorted_wrt (<) (map fst (register_metrics r))"
  shows "sorted_wrt (<) (map fst (register_metrics r'))"
  using assms map_insert_sorted [OF assms(2)]
  by (auto simp: register_metric_def Let_def split: option.splits if_splits)

text \<open>
  Claim C7. With \<open>metric\<close> a pointer to a metric named \<open>n\<close>: when no entry has the name
  \<open>n\<close>, \<open>register_metric\<close> returns true, afterwards \<open>get_metric n\<close> returns \<open>metric\<close>
  and every other name is as before; when the name is taken, it returns false and the
  registry is unchanged, so \<open>get_metric n\<close> still returns the first metric.
  \<open>unregister_metric n\<close> returns true exactly when \<open>n\<close> was registered, afterwards \<open>n\<close>
  is absent and every other name is as before, and a second call returns false.
  \<open>get_metric\<close> of a name without entry returns the null pointer; it has no failing
  result at all.
\<close>

theorem registry_operations:
  assumes "st metric = Some obj"
  shows "(get_metric (obj_get_name obj) r = None
           \<longrightarrow> (\<exists>r'. register_metric st metric r = Some (True, r')
                  \<and> get_metric (obj_get_name obj) r' = Some metric
                  \<and> (\<forall>n. n \<noteq> obj_get_name obj \<longrightarrow> get_metric n r' = get_metric n r)
                  \<and> Registry_size r' = Suc (Registry_size r)))
    \<and> (\<forall>first. get_metric (obj_get_name obj) r = Some first
           \<longrightarrow> register_metric st metric r = Some (False, r))
    \<and> fst (unregister_metric n r) = (get_metric n r \<noteq> None)
    \<and> get_metric n (snd (unregister_metric n r)) = None
    \<and> (\<forall>n'. n' \<noteq> n \<longrightarrow> get_metric n' (snd (unregister_metric n r)) = get_metric n' r)
    \<and> (get_metric n r = None \<longrightarrow> snd (unregister_metric n r) = r)
    \<and> fst (unregister_metric n (snd (unregister_metric n r))) = False
    \<and> (n \<notin> fst ` set (register_metrics r) \<longrightarrow> get_metric n r = None)"
proof -
  let ?name = "obj_get_name obj"
  let ?m = "register_metrics r"
  have reg_new: "get_metric ?name r = None
           \<longrightarrow> (\<exists>r'. register_metric st metric r = Some (True, r')
                  \<and> get_metric ?name r' = Some metric
                  \<and> (\<forall>n. n \<noteq> ?name \<longrightarrow> get_metric n r' = get_metric n r)
                  \<and> Registry_size r' = Suc (Registry_size r))"
    using assms
    by (simp add: get_metric_find register_metric_def Registry_size_def
        map_insert_absent_find_same map_insert_find_other map_insert_absent_length)
  have reg_taken: "\<forall>first. get_metric ?name r = Some first
           \<longrightarrow> register_metric st metric r = Some (False, r)"
    using assms by (simp add: get_metric_find register_metric_def)
  have unreg: "unregister_metric n r
      = (fst (map_erase n (register_metrics r)) \<noteq> 0,
         r\<lparr>register_metrics := snd (map_erase n (register_metrics r))\<rparr>)" for r
    by (cases "map_erase n (register_metrics r)") (simp add: unregister_metric_def)
  have un_ret: "fst (unregister_metric n r) = (get_metric n r \<noteq> None)"
    unfolding unreg fst_conv get_metric_find by (rule map_erase_count)
  have un_gone: "get_metric n (snd (unregister_metric n r)) = None" for r
    by (simp add: unreg get_metric_find map_erase_find)
  have un_other: "\<forall>n'. n' \<noteq> n \<longrightarrow> get_metric n' (snd (unregister_metric n r)) = get_metric n' r"
    by (simp add: unreg get_metric_find map_erase_find)
  have un_absent: "get_metric n r = None \<longrightarrow> snd (unregister_metric n r) = r"
    by (simp add: unreg get_metric_find map_erase_absent)
  have un_twice: "fst (unregister_metric n (snd (unregister_metric n r))) = False"
  proof -
    have "map_find n (snd (map_erase n (register_metrics r))) = None"
      by (simp add: map_erase_find)
    then have "\<not> fst (map_erase n (snd (map_erase n (register_metrics r)))) \<noteq> 0"
      unfolding map_erase_count by simp
    then show ?thesis
      unfolding unreg fst_conv snd_conv by simp
  qed
  have get_absent: "n \<notin> fst ` set ?m \<longrightarrow> get_metric n r = None"
    by (simp add: get_metric_find map_find_None_iff)
  show ?thesis
    by (intro conjI) (fact reg_new reg_taken un_ret un_gone un_other un_absent un_twice get_absent)+
qed

theorem registry_operations_witness:
  "register_metric
       (Map.empty(0 \<mapsto> GaugeMetric \<lparr>m_name = ''my_gauge'', m_description = ''Test gauge'', m_type = Gauge\<rparr> (Gauge_new (double_of_nat 42)),
                  1 \<mapsto> GaugeMetric \<lparr>m_name = ''my_gauge'', m_description = ''Test gauge 2'', m_type = Gauge\<rparr> (Gauge_new (double_of_nat 2))))
       1 \<lparr>register_metrics = [(''my_gauge'', 0)]\<rparr>
     = Some (False, \<lparr>register_metrics = [(''my_gauge'', 0)]\<rparr>)
   \<and> get_metric ''my_gauge'' \<lparr>register_metrics = [(''my_gauge'', 0)]\<rparr> = Some 0
   \<and> fst (unregister_metric ''my_gauge'' \<lparr>register_metrics = [(''my_gauge'', 0)]\<rparr>) = True
   \<and> fst (unregister_metric ''nani'' \<lparr>register_metrics = [(''my_gauge'', 0)]\<rparr>) = False
   \<and> snd (unregister_metric ''nani'' \<lparr>register_metrics = [(''my_gauge'', 0)]\<rparr>)
       = \<lparr>register_metrics = [(''my_gauge'', 0)]\<rparr>
   \<and> get_metric ''nanidesuka'' \<lparr>register_metrics = [(''my_gauge'', 0)]\<rparr> = None"
proof -
  let ?g1 = "GaugeMetric \<lparr>m_name = ''my_gauge'', m_description = ''Test gauge'', m_type = Gauge\<rparr> (Gauge_new (double_of_nat 42))"
  let ?g2 = "GaugeMetric \<lparr>m_name = ''my_gauge'', m_description = ''Test gauge 2'', m_type = Gauge\<rparr> (Gauge_new (double_of_nat 2))"
  let ?st = "Map.empty(0 \<mapsto> ?g1, 1 \<mapsto> ?g2)"
  let ?r = "\<lparr>register_metrics = [(''my_gauge'', 0)]\<rparr>"
  have live: "?st 1 = Some ?g2"
    by simp
  have name: "obj_get_name ?g2 = ''my_gauge''"
    by (simp add: get_name_def)
  have taken: "get_metric ''my_gauge'' ?r = Some 0"
    by (simp add: get_metric_def)
  have absent: "get_metric ''nani'' ?r = None"
    by (simp add: get_metric_def)
  have nokey: "''nanidesuka'' \<notin> fst ` set (register_metrics ?r)"
    by simp
  from registry_operations [of ?st 1 ?g2 ?r "''my_gauge''", OF live] taken
  have a: "register_metric ?st 1 ?r = Some (False, ?r)"
    and b: "fst (unregister_metric ''my_gauge'' ?r) = True"
    unfolding name by simp_all
  from registry_operations [of ?st 1 ?g2 ?r "''nani''", OF live] absent
  have c: "fst (unregister_metric ''nani'' ?r) = False"
    and d: "snd (unregister_metric ''nani'' ?r) = ?r"
    by simp_all
  from registry_operations [of ?st 1 ?g2 ?r "''nanidesuka''", OF live] nokey
  have e: "get_metric ''nanidesuka'' ?r = None"
    by blast
  from a taken b c d e show ?thesis
    by (intro conjI)
qed

section \<open>Histogram\<close>

lemma dlt_trans: "dlt a b \<Longrightarrow> dlt b c \<Longrightarrow> dlt a c"
  by (cases a; cases b; cases c) auto

lemma dle_dlt_trans: "dle v a \<Longrightarrow> dlt a b \<Longrightarrow> dle v b"
  by (cases v; cases a; cases b) auto

lemma count_le_dle: "count_le c c' \<Longrightarrow> dle c c'"
  by (auto simp: count_le_def dle_double_of_nat)

lemma count_increment:
  assumes "k \<le> 2 ^ 53"
  shows "dadd (double_of_nat k) (double_of_nat 1) = double_of_nat (min (Suc k) (2 ^ 53))"
proof (cases "k < 2 ^ 53")
  case True
  then have "k + 1 \<le> 2 ^ 53" by simp
  from dadd_double_of_nat [OF this] True show ?thesis
    by (simp add: min_def)
next
  case False
  with assms have "k = 2 ^ 53" by simp
  then show ?thesis
    using dadd_saturated by (simp add: min_def)
qed

lemma bucket_insert_keys_subset:
  "set (map fst (bucket_insert (k, v) m)) \<subseteq> insert k (set (map fst m))"
  by (induction m) (fastforce split: if_splits)+

lemma bucket_insert_keys_kept:
  "set (map fst m) \<subseteq> set (map fst (bucket_insert (k, v) m))"
  by (induction m) (fastforce split: if_splits)+

lemma bucket_insert_counts:
  "set (map snd (bucket_insert (k, v) m)) \<subseteq> insert v (set (map snd m))"
  by (induction m) (fastforce split: if_splits)+

lemma bucket_insert_sorted:
  "sorted_wrt dlt (map fst m) \<Longrightarrow> sorted_wrt dlt (map fst (bucket_insert (k, v) m))"
proof (induction m)
  case Nil
  show ?case by simp
next
  case (Cons p m)
  obtain k' v' where p: "p = (k', v')" by (cases p)
  from Cons.prems have tl: "sorted_wrt dlt (map fst m)" and hd: "\<forall>x \<in> set (map fst m). dlt k' x"
    by (simp_all add: p)
  show ?case
  proof (cases "dlt k k'")
    case True
    with hd have "\<forall>x \<in> set (map fst m). dlt k x"
      by (blast intro: dlt_trans)
    with True Cons.prems show ?thesis by (simp add: p)
  next
    case False
    show ?thesis
    proof (cases "dlt k' k")
      case True
      have "\<forall>x \<in> set (map fst (bucket_insert (k, v) m)). dlt k' x"
        using hd True bucket_insert_keys_subset [of k v m] by blast
      with Cons.IH [OF tl] False True show ?thesis by (simp add: p)
    next
      case False
      with \<open>\<not> dlt k k'\<close> Cons.prems show ?thesis by (simp add: p)
    qed
  qed
qed

lemma Histogram_new_buckets:
  "sorted_wrt dlt (map fst (h_buckets (Histogram_new bs)))
   \<and> PInf \<in> set (map fst (h_buckets (Histogram_new bs)))
   \<and> set (map snd (h_buckets (Histogram_new bs))) \<subseteq> {double_of_nat 0}"
proof -
  have "sorted_wrt dlt (map fst (fold (\<lambda>bucket m. bucket_insert (bucket, double_of_nat 0) m) bs m))
        \<and> PInf \<in> set (map fst (fold (\<lambda>bucket m. bucket_insert (bucket, double_of_nat 0) m) bs m))
        \<and> set (map snd (fold (\<lambda>bucket m. bucket_insert (bucket, double_of_nat 0) m) bs m)) \<subseteq> {double_of_nat 0}"
    if "sorted_wrt dlt (map fst m)" and "PInf \<in> set (map fst m)" and "set (map snd m) \<subseteq> {double_of_nat 0}" for m
    using that
  proof (induction bs arbitrary: m)
    case Nil
    then show ?case by simp
  next
    case (Cons b bs)
    have "sorted_wrt dlt (map fst (bucket_insert (b, double_of_nat 0) m))"
      using Cons.prems(1) by (rule bucket_insert_sorted)
    moreover have "PInf \<in> set (map fst (bucket_insert (b, double_of_nat 0) m))"
      using Cons.prems(2) bucket_insert_keys_kept [of m b "double_of_nat 0"] by (auto simp del: set_map)
    moreover have "set (map snd (bucket_insert (b, double_of_nat 0) m)) \<subseteq> {double_of_nat 0}"
      using Cons.prems(3) bucket_insert_counts [of b "double_of_nat 0" m] by (auto simp del: set_map)
    ultimately show ?case
      using Cons.IH [of "bucket_insert (b, double_of_nat 0) m"] by simp
  qed
  then show ?thesis
    by (simp add: Histogram_new_def)
qed

lemma observe_buckets_map:
  "observe_buckets v m =
     map (\<lambda>p. if dle v (fst p) then (fst p, atomic_add (double_of_nat 1) (snd p)) else p) m"
  by (induction m) auto

lemma observe_buckets_keys: "map fst (observe_buckets v m) = map fst m"
  by (induction m) auto

lemma observe_buckets_length: "length (observe_buckets v m) = length m"
  by (induction m) auto

lemma observe_buckets_nth:
  "i < length m \<Longrightarrow>
     snd (observe_buckets v m ! i) =
       (if dle v (fst (m ! i)) then dadd (snd (m ! i)) (double_of_nat 1) else snd (m ! i))"
  by (simp add: observe_buckets_map atomic_add_def change_def load_def)

lemma count_le_step:
  assumes "dlt (fst p) (fst q)" and "count_le (snd p) (snd q)"
  shows "count_le (snd (if dle v (fst p) then (fst p, atomic_add (double_of_nat 1) (snd p)) else p))
                  (snd (if dle v (fst q) then (fst q, atomic_add (double_of_nat 1) (snd q)) else q))"
proof -
  from assms(2) obtain a b where ab: "a \<le> b" "b \<le> 2 ^ 53"
    and p: "snd p = double_of_nat a" and q: "snd q = double_of_nat b"
    by (auto simp: count_le_def)
  from ab have a: "a \<le> 2 ^ 53" by simp
  have up: "dle v (fst p) \<Longrightarrow> dle v (fst q)"
    using assms(1) by (rule dle_dlt_trans [rotated])
  have both: "count_le (double_of_nat (min (Suc a) (2 ^ 53))) (double_of_nat (min (Suc b) (2 ^ 53)))"
    unfolding count_le_def using ab
    by (intro exI [of _ "min (Suc a) (2 ^ 53)"] exI [of _ "min (Suc b) (2 ^ 53)"]) simp
  have second: "count_le (double_of_nat a) (double_of_nat (min (Suc b) (2 ^ 53)))"
    unfolding count_le_def using ab
    by (intro exI [of _ a] exI [of _ "min (Suc b) (2 ^ 53)"]) simp
  have ia: "atomic_add (double_of_nat 1) (double_of_nat a) = double_of_nat (min (Suc a) (2 ^ 53))"
    unfolding atomic_add_def change_def load_def by (rule count_increment [OF a])
  have ib: "atomic_add (double_of_nat 1) (double_of_nat b) = double_of_nat (min (Suc b) (2 ^ 53))"
    unfolding atomic_add_def change_def load_def by (rule count_increment [OF ab(2)])
  show ?thesis
  proof (cases "dle v (fst q)")
    case q_in: True
    show ?thesis
    proof (cases "dle v (fst p)")
      case True
      with q_in both show ?thesis
        by (simp only: if_True snd_conv p q ia ib)
    next
      case False
      with q_in second show ?thesis
        by (simp only: if_True if_False snd_conv p q ib)
    qed
  next
    case False
    with up have "\<not> dle v (fst p)" by blast
    with False assms(2) show ?thesis
      by (simp only: if_False)
  qed
qed

lemma observe_buckets_cumulative:
  assumes "sorted_wrt (\<lambda>p q. dlt (fst p) (fst q) \<and> count_le (snd p) (snd q)) m"
  shows "sorted_wrt (\<lambda>p q. dlt (fst p) (fst q) \<and> count_le (snd p) (snd q)) (observe_buckets v m)"
  unfolding observe_buckets_map sorted_wrt_map
  using assms
proof (rule sorted_wrt_mono_rel [rotated])
  fix p q
  assume "dlt (fst p) (fst q) \<and> count_le (snd p) (snd q)"
  then show "dlt (fst (if dle v (fst p) then (fst p, atomic_add (double_of_nat 1) (snd p)) else p))
                 (fst (if dle v (fst q) then (fst q, atomic_add (double_of_nat 1) (snd q)) else q))
             \<and> count_le (snd (if dle v (fst p) then (fst p, atomic_add (double_of_nat 1) (snd p)) else p))
                 (snd (if dle v (fst q) then (fst q, atomic_add (double_of_nat 1) (snd q)) else q))"
    using count_le_step [of p q v] by simp
qed

lemma zero_counts_cumulative:
  "sorted_wrt dlt (map fst m) \<Longrightarrow> set (map snd m) \<subseteq> {double_of_nat 0}
     \<Longrightarrow> sorted_wrt (\<lambda>p q. dlt (fst p) (fst q) \<and> count_le (snd p) (snd q)) m"
proof (induction m)
  case Nil
  show ?case by simp
next
  case (Cons p m)
  have zz: "count_le (double_of_nat 0) (double_of_nat 0)"
    unfolding count_le_def by (intro exI [of _ 0]) simp
  from Cons.prems have "snd p = double_of_nat 0" and "\<forall>q \<in> set m. snd q = double_of_nat 0"
    by auto
  with Cons zz show ?case by auto
qed

lemma fold_observe_buckets:
  assumes "sorted_wrt (\<lambda>p q. dlt (fst p) (fst q) \<and> count_le (snd p) (snd q)) (h_buckets h)"
    and "PInf \<in> fst ` set (h_buckets h)"
  shows "sorted_wrt (\<lambda>p q. dlt (fst p) (fst q) \<and> count_le (snd p) (snd q))
            (h_buckets (fold observe vs h))
         \<and> PInf \<in> fst ` set (h_buckets (fold observe vs h))"
  using assms
proof (induction vs arbitrary: h)
  case Nil
  then show ?case by simp
next
  case (Cons v vs)
  have b: "h_buckets (observe v h) = observe_buckets v (h_buckets h)"
    by (simp add: observe_def)
  have "sorted_wrt (\<lambda>p q. dlt (fst p) (fst q) \<and> count_le (snd p) (snd q)) (h_buckets (observe v h))"
    unfolding b using Cons.prems(1) by (rule observe_buckets_cumulative)
  moreover have "PInf \<in> fst ` set (h_buckets (observe v h))"
    using Cons.prems(2) observe_buckets_keys [of v "h_buckets h"]
    by (metis b set_map)
  ultimately show ?case
    using Cons.IH [of "observe v h"] by simp
qed

text \<open>
  Claim C5 says that \<open>observe(v)\<close> adds exactly \<open>v\<close> to the sum. The sum is a double and
  the addition is rounded: after \<open>observe(2^53)\<close> on a new histogram the sum is \<open>2^53\<close>,
  and \<open>observe(1)\<close> leaves it at \<open>2^53\<close>.
\<close>

theorem observe_sum_not_exact:
  "scaled (h_sum (observe (double_of_nat (2 ^ 53)) (Histogram_new []))) = Some (2 ^ 53 * 2 ^ emin)
   \<and> scaled (double_of_nat 1) = Some (2 ^ emin)
   \<and> scaled (h_sum (observe (double_of_nat 1)
                (observe (double_of_nat (2 ^ 53)) (Histogram_new []))))
       = Some (2 ^ 53 * 2 ^ emin)
   \<and> (2 ^ 53 * 2 ^ emin :: int) \<noteq> 2 ^ 53 * 2 ^ emin + 2 ^ emin"
proof -
  have big: "scaled (double_of_nat (2 ^ 53)) = Some (2 ^ 53 * 2 ^ emin)"
    by (simp add: double_of_nat_exact)
  have one: "scaled (double_of_nat 1) = Some (2 ^ emin)"
    using double_of_nat_exact [of 1] by simp
  have first: "h_sum (observe (double_of_nat (2 ^ 53)) (Histogram_new [])) = double_of_nat (2 ^ 53)"
    using dadd_double_of_nat [of 0 "2 ^ 53"]
    by (simp add: observe_def Histogram_new_def atomic_add_def change_def load_def)
  have hs: "h_sum (observe v h) = dadd (h_sum h) v" for v h
    by (simp add: observe_def atomic_add_def change_def load_def)
  have second: "h_sum (observe (double_of_nat 1)
                (observe (double_of_nat (2 ^ 53)) (Histogram_new []))) = double_of_nat (2 ^ 53)"
    unfolding hs [of "double_of_nat 1"] first by (rule dadd_saturated)
  have ne: "(2 ^ 53 * 2 ^ emin :: int) \<noteq> 2 ^ 53 * 2 ^ emin + 2 ^ emin"
    by simp
  show ?thesis
    using big one ne by (simp only: first second simp_thms)
qed

text \<open>
  Claim C5, amended. \<open>observe(v)\<close> replaces the sum by the double-precision sum of the sum
  and \<open>v\<close>, which is the sum plus \<open>v\<close> exactly whenever that number is a double. It keeps
  the bounds and replaces the count of exactly those buckets whose bound is at least \<open>v\<close>
  by the double-precision sum of the count and 1, which is the count plus one for every
  whole count below \<open>2^53\<close>. After any sequence of observations on a histogram built by
  the constructor, the bucket for \<open>+infinity\<close> is present, the bounds are strictly
  ascending in iteration order and the counts are non-decreasing in that order.
\<close>

theorem observe_cumulative:
  "h_sum (observe v h) = dadd (h_sum h) v
   \<and> (\<forall>x y. scaled (h_sum h) = Some x \<and> scaled v = Some y \<and> representable (nat \<bar>x + y\<bar>)
        \<longrightarrow> scaled (h_sum (observe v h)) = Some (x + y))
   \<and> map fst (h_buckets (observe v h)) = map fst (h_buckets h)
   \<and> (\<forall>i < length (h_buckets h).
         snd (h_buckets (observe v h) ! i) =
           (if dge (fst (h_buckets h ! i)) v
            then dadd (snd (h_buckets h ! i)) (double_of_nat 1)
            else snd (h_buckets h ! i)))
   \<and> (\<forall>k < 2 ^ 53. dadd (double_of_nat k) (double_of_nat 1) = double_of_nat (Suc k))
   \<and> (v \<noteq> NaN \<longrightarrow> dge PInf v)
   \<and> PInf \<in> fst ` set (h_buckets (fold observe vs (Histogram_new bs)))
   \<and> sorted_wrt (\<lambda>p q. dlt (fst p) (fst q) \<and> dle (snd p) (snd q))
        (h_buckets (fold observe vs (Histogram_new bs)))"
proof -
  have s: "h_sum (observe v h) = dadd (h_sum h) v"
    by (simp add: observe_def atomic_add_def change_def load_def)
  have e: "\<forall>x y. scaled (h_sum h) = Some x \<and> scaled v = Some y \<and> representable (nat \<bar>x + y\<bar>)
        \<longrightarrow> scaled (h_sum (observe v h)) = Some (x + y)"
    unfolding s by (auto intro: dadd_exact)
  have k: "map fst (h_buckets (observe v h)) = map fst (h_buckets h)"
    by (simp add: observe_def observe_buckets_keys)
  have c: "\<forall>i < length (h_buckets h).
         snd (h_buckets (observe v h) ! i) =
           (if dge (fst (h_buckets h ! i)) v
            then dadd (snd (h_buckets h ! i)) (double_of_nat 1)
            else snd (h_buckets h ! i))"
    by (simp add: observe_def observe_buckets_nth dge_def)
  have inc: "\<forall>k < 2 ^ 53. dadd (double_of_nat k) (double_of_nat 1) = double_of_nat (Suc k)"
  proof (intro allI impI)
    fix k :: nat
    assume "k < 2 ^ 53"
    then have "k + 1 \<le> 2 ^ 53" by simp
    from dadd_double_of_nat [OF this]
    show "dadd (double_of_nat k) (double_of_nat 1) = double_of_nat (Suc k)" by simp
  qed
  have top: "v \<noteq> NaN \<longrightarrow> dge PInf v"
    by (cases v) (simp_all add: dge_def)
  note new = Histogram_new_buckets [of bs]
  have "sorted_wrt (\<lambda>p q. dlt (fst p) (fst q) \<and> count_le (snd p) (snd q))
          (h_buckets (Histogram_new bs))"
    using new by (intro zero_counts_cumulative) simp_all
  from fold_observe_buckets [OF this, of vs] new
  have inf: "PInf \<in> fst ` set (h_buckets (fold observe vs (Histogram_new bs)))"
    and cum: "sorted_wrt (\<lambda>p q. dlt (fst p) (fst q) \<and> count_le (snd p) (snd q))
          (h_buckets (fold observe vs (Histogram_new bs)))"
    by simp_all
  from cum have mono: "sorted_wrt (\<lambda>p q. dlt (fst p) (fst q) \<and> dle (snd p) (snd q))
          (h_buckets (fold observe vs (Histogram_new bs)))"
    by (rule sorted_wrt_mono_rel [rotated]) (simp add: count_le_dle)
  show ?thesis
    by (intro conjI) (fact s e k c inc top inf mono)+
qed

theorem observe_cumulative_witness:
  "h_buckets (Histogram_new [double_of_nat 2, double_of_nat 1])
     = [(double_of_nat 1, double_of_nat 0), (double_of_nat 2, double_of_nat 0),
        (PInf, double_of_nat 0)]
   \<and> scaled (h_sum (observe (dbl False 3 (-1)) (Histogram_new [double_of_nat 2, double_of_nat 1])))
     = scaled (dbl False 3 (-1))
   \<and> snd (h_buckets (observe (dbl False 3 (-1))
            (Histogram_new [double_of_nat 2, double_of_nat 1])) ! 0) = double_of_nat 0
   \<and> snd (h_buckets (observe (dbl False 3 (-1))
            (Histogram_new [double_of_nat 2, double_of_nat 1])) ! 1) = double_of_nat 1
   \<and> snd (h_buckets (observe (dbl False 3 (-1))
            (Histogram_new [double_of_nat 2, double_of_nat 1])) ! 2) = double_of_nat 1"
proof -
  let ?h = "Histogram_new [double_of_nat 2, double_of_nat 1]"
  let ?v = "dbl False 3 (-1)"
  have lt12: "dlt (double_of_nat 1) (double_of_nat 2)" and nlt21: "\<not> dlt (double_of_nat 2) (double_of_nat 1)"
    by (simp_all add: dlt_double_of_nat)
  have new: "h_buckets ?h
     = [(double_of_nat 1, double_of_nat 0), (double_of_nat 2, double_of_nat 0),
        (PInf, double_of_nat 0)]"
    and sum0: "h_sum ?h = double_of_nat 0"
    using lt12 nlt21 double_of_nat_exact [of 1] double_of_nat_exact [of 2]
    by (simp_all add: Histogram_new_def)
  have v: "?v = Fin False (3 * 2 ^ (emin - 1))"
    by (simp add: dbl_def emin_def nat_diff_distrib)
  have two: "(2::nat) ^ emin = 2 * 2 ^ (emin - 1)"
    by (simp add: emin_def)
  have d1: "double_of_nat 1 = Fin False (2 * 2 ^ (emin - 1))"
    using double_of_nat_exact [of 1] by (simp add: two)
  have d2: "double_of_nat 2 = Fin False (4 * 2 ^ (emin - 1))"
    using double_of_nat_exact [of 2] by (simp add: two)
  have cmp: "\<not> dge (double_of_nat 1) ?v" "dge (double_of_nat 2) ?v" "dge PInf ?v"
    by (simp_all add: dge_def v d1 [unfolded One_nat_def] d2 [unfolded One_nat_def])
  have rep: "representable (3 * 2 ^ (emin - 1))"
    by (intro representable_shift) (simp_all add: emin_def emax_def)
  have sx: "scaled (h_sum ?h) = Some 0" and sy: "scaled ?v = Some (int (3 * 2 ^ (emin - 1)))"
    by (simp_all add: sum0 [unfolded One_nat_def] double_zero v)
  have incr: "dadd (double_of_nat 0) (double_of_nat 1) = double_of_nat 1"
    using dadd_double_of_nat [of 0 1] by simp
  note oc = observe_cumulative [of ?v ?h "[]" "[]"]
  from oc have ex: "\<forall>x y. scaled (h_sum ?h) = Some x \<and> scaled ?v = Some y
        \<and> representable (nat \<bar>x + y\<bar>)
      \<longrightarrow> scaled (h_sum (observe ?v ?h)) = Some (x + y)"
    by blast
  have rep': "representable (nat \<bar>0 + int (3 * 2 ^ (emin - 1))\<bar>)"
    using rep by (simp only: add_0 abs_of_nat nat_int)
  from ex sx sy rep' have "scaled (h_sum (observe ?v ?h)) = Some (0 + int (3 * 2 ^ (emin - 1)))"
    by blast
  then have s: "scaled (h_sum (observe ?v ?h)) = scaled ?v"
    by (simp only: sy add_0)
  from oc have step: "\<forall>i < length (h_buckets ?h).
      snd (h_buckets (observe ?v ?h) ! i) =
        (if dge (fst (h_buckets ?h ! i)) ?v then dadd (snd (h_buckets ?h ! i)) (double_of_nat 1)
         else snd (h_buckets ?h ! i))"
    by blast
  note new' = new [unfolded One_nat_def]
  have l0: "0 < length (h_buckets ?h)" and l1: "1 < length (h_buckets ?h)"
    and l2: "2 < length (h_buckets ?h)"
    by (simp_all add: new')
  from step l0 cmp have c0: "snd (h_buckets (observe ?v ?h) ! 0) = double_of_nat 0"
    by (simp add: new')
  from step l1 cmp incr have c1: "snd (h_buckets (observe ?v ?h) ! 1) = double_of_nat 1"
    by (simp add: new')
  from step l2 cmp incr have c2: "snd (h_buckets (observe ?v ?h) ! 2) = double_of_nat 1"
    by (simp add: new')
  show ?thesis
    by (intro conjI) (fact new s c0 c1 c2)+
qed

section \<open>Text serializer\<close>




















text \<open>
  Claim C8. A gauge named \<open>my_gauge\<close> with description \<open>Test gauge\<close> and value 42 is
  registered, the registry is collected into an empty snapshot and the snapshot is
  serialized. Where the platform prints the double 42 as \<open>42\<close>, the output is the three
  lines \<open># HELP my_gauge Test gauge\<close>, \<open># TYPE my_gauge gauge\<close> and \<open>my_gauge 42\<close>, the
  last one without a labels block.
\<close>

theorem my_gauge_round_trip:
  assumes "fmt (double_of_nat 42) = ''42''"
  shows "GaugeMetric_new ''my_gauge'' ''Test gauge'' (double_of_nat 42)
       = Inr (GaugeMetric \<lparr>m_name = ''my_gauge'', m_description = ''Test gauge'', m_type = Gauge\<rparr>
                \<lparr>gauge_value = double_of_nat 42\<rparr>)
    \<and> register_metric
         (Map.empty(a \<mapsto> GaugeMetric
            \<lparr>m_name = ''my_gauge'', m_description = ''Test gauge'', m_type = Gauge\<rparr>
            \<lparr>gauge_value = double_of_nat 42\<rparr>))
         a Registry_new
       = Some (True, \<lparr>register_metrics = [(''my_gauge'', a)]\<rparr>)
    \<and> collect \<lparr>register_metrics = [(''my_gauge'', a)]\<rparr> [] = [(''my_gauge'', a)]
    \<and> serialize fmt to_string hs
         (Map.empty(a \<mapsto> GaugeMetric
            \<lparr>m_name = ''my_gauge'', m_description = ''Test gauge'', m_type = Gauge\<rparr>
            \<lparr>gauge_value = double_of_nat 42\<rparr>))
         [] [(''my_gauge'', a)]
       = ''# HELP my_gauge Test gauge'' @ endl
           @ ''# TYPE my_gauge gauge'' @ endl
           @ ''my_gauge 42'' @ endl"
proof -
  have new: "GaugeMetric_new ''my_gauge'' ''Test gauge'' (double_of_nat 42)
       = Inr (GaugeMetric \<lparr>m_name = ''my_gauge'', m_description = ''Test gauge'', m_type = Gauge\<rparr>
                \<lparr>gauge_value = double_of_nat 42\<rparr>)"
    by (simp add: GaugeMetric_new_def Metric_new_def check_name_format_def is_alpha_def
        is_digit_def Gauge_new_def)
  have reg: "register_metric
         (Map.empty(a \<mapsto> GaugeMetric
            \<lparr>m_name = ''my_gauge'', m_description = ''Test gauge'', m_type = Gauge\<rparr>
            \<lparr>gauge_value = double_of_nat 42\<rparr>))
         a Registry_new
       = Some (True, \<lparr>register_metrics = [(''my_gauge'', a)]\<rparr>)"
    by (simp add: register_metric_def Registry_new_def get_name_def)
  have col: "collect \<lparr>register_metrics = [(''my_gauge'', a)]\<rparr> [] = [(''my_gauge'', a)]"
    by (simp add: collect_def)
  have ser: "serialize fmt to_string hs
         (Map.empty(a \<mapsto> GaugeMetric
            \<lparr>m_name = ''my_gauge'', m_description = ''Test gauge'', m_type = Gauge\<rparr>
            \<lparr>gauge_value = double_of_nat 42\<rparr>))
         [] [(''my_gauge'', a)]
       = ''# HELP my_gauge Test gauge'' @ endl
           @ ''# TYPE my_gauge gauge'' @ endl
           @ ''my_gauge 42'' @ endl"
    using assms
    by (simp add: serialize_entry_def get_name_def get_description_def get_type_def
        Gauge_serialize_def metric_serializer_def load_def)
  show ?thesis
    by (intro conjI) (fact new reg col ser)+
qed

theorem my_gauge_round_trip_witness:
  "serialize (\<lambda>d. if d = double_of_nat 42 then ''42'' else ''other'') (\<lambda>d. ''other'')
       \<lparr>counters = \<lparr>cells = \<lambda>_. Counter_new, next_free = 0\<rparr>,
        gauges = \<lparr>cells = \<lambda>_. Gauge_new (double_of_nat 0), next_free = 0\<rparr>,
        histograms = \<lparr>cells = \<lambda>_. Histogram_new [], next_free = 0\<rparr>\<rparr>
       (Map.empty(0 \<mapsto> GaugeMetric
          \<lparr>m_name = ''my_gauge'', m_description = ''Test gauge'', m_type = Gauge\<rparr>
          \<lparr>gauge_value = double_of_nat 42\<rparr>))
       [] [(''my_gauge'', 0)]
     = ''# HELP my_gauge Test gauge'' @ [CHR 0x0A]
         @ ''# TYPE my_gauge gauge'' @ [CHR 0x0A]
         @ ''my_gauge 42'' @ [CHR 0x0A]"
proof -
  have printed: "(\<lambda>d. if d = double_of_nat 42 then ''42'' else ''other'') (double_of_nat 42) = ''42''"
    by simp
  from printed my_gauge_round_trip [where fmt = "\<lambda>d. if d = double_of_nat 42 then ''42'' else ''other''"
      and a = 0 and to_string = "\<lambda>d. ''other''"
      and hs = "\<lparr>counters = \<lparr>cells = \<lambda>_. Counter_new, next_free = 0\<rparr>,
        gauges = \<lparr>cells = \<lambda>_. Gauge_new (double_of_nat 0), next_free = 0\<rparr>,
        histograms = \<lparr>cells = \<lambda>_. Histogram_new [], next_free = 0\<rparr>\<rparr>"]
  show ?thesis
    by (simp add: endl_def)
qed

section \<open>The serializer writes the exposition text\<close>


lemma ascending_Nil [simp]: "ascending [] = []"
  by (simp add: ascending_def)









text \<open>The keys of a family stay label sets when \<open>labels\<close> is given label sets.\<close>

lemma labels_keys_sorted:
  assumes "MetricFamily_labels t labels f h = (r, f', h')"
    and "sorted_wrt (<) labels"
    and "list_all (\<lambda>p. sorted_wrt (<) (fst p)) (metrics f)"
  shows "list_all (\<lambda>p. sorted_wrt (<) (fst p)) (metrics f')"
proof -
  have "list_all (\<lambda>p. sorted_wrt (<) (fst p)) (map_insert (labels, a) (metrics f))" for a
    using assms(2,3) map_insert_subset [of labels a "metrics f"]
    by (auto simp: list_all_iff)
  with assms(1,3) show ?thesis
    by (auto simp: MetricFamily_labels_def make_shared_def split: if_splits option.splits)
qed




end
